theory Spec2Isabelle
  imports Main
begin

section \<open>Data model\<close>

text \<open>
  The order endpoints of \<^verbatim>\<open>backend/app/routers/orders.py\<close> work on three tables of
  the persistence store: \<^verbatim>\<open>inventory_items\<close>, \<^verbatim>\<open>orders\<close> and \<^verbatim>\<open>order_items\<close>.
  A table is the list of its rows. Identifiers that the store generates (UUID strings
  in the deployment) are naturals taken from a counter; item identifiers, names and
  roles are strings as in the source. The timestamp columns play no part in any
  branch of the handlers and are left out of the rows.
\<close>

datatype OrderStatus = PENDING | PROCESSING | FULFILLED

record inventory_row =
  inv_id :: string
  inv_name :: string
  inv_description :: "string option"
  stock_level :: int
  low_stock_threshold :: int

record order_row =
  ord_id :: nat
  ord_customer_name :: string
  ord_status :: OrderStatus
  ord_created_by :: string

record order_item_row =
  oi_id :: nat
  oi_order_id :: nat
  oi_item_id :: string
  oi_quantity :: int

text \<open>Request and response models of \<^verbatim>\<open>models/order.py\<close>.\<close>

record OrderItemCreate =
  item_id :: string
  quantity :: int

record OrderCreate =
  customer_name :: string
  items :: "OrderItemCreate list"

record OrderItemResponse =
  ri_id :: nat
  ri_item_id :: string
  ri_item_name :: string
  ri_quantity :: int

record OrderResponse =
  resp_id :: nat
  resp_customer_name :: string
  resp_status :: OrderStatus
  resp_items :: "OrderItemResponse list"
  resp_created_by :: string

text \<open>Request and response models of \<^verbatim>\<open>models/inventory.py\<close>.\<close>

record InventoryItemUpdate =
  upd_name :: "string option"
  upd_description :: "string option"
  upd_stock_level :: "int option"
  upd_low_stock_threshold :: "int option"

record InventoryItemResponse =
  ir_id :: string
  ir_name :: string
  ir_description :: "string option"
  ir_stock_level :: int
  ir_low_stock_threshold :: int

text \<open>
  The payload of a decoded access token: \<^verbatim>\<open>decode_access_token\<close> rejects a token
  without a \<^verbatim>\<open>user_id\<close> or a \<^verbatim>\<open>role\<close>, so both are present.
\<close>

record current_user =
  user_id :: string
  role :: string

text \<open>
  Every \<^verbatim>\<open>HTTPException\<close> the handlers raise is a value: the status code and the
  detail. The two f-string messages of the stock validation are kept as structured
  entries holding the interpolated fields.
\<close>

datatype stock_problem =
    ItemNotFound string
  | InsufficientFor string int int

datatype detail =
    Msg string
  | InsufficientStock "stock_problem list"

datatype http_exception = HTTPException nat detail

section \<open>The persistence store\<close>

text \<open>
  The handlers reach the store through the client's \<^verbatim>\<open>select\<close>, \<^verbatim>\<open>insert\<close>,
  \<^verbatim>\<open>update\<close> and \<^verbatim>\<open>delete\<close> calls. A read is answered from the tables. A write
  is a remote call whose outcome the environment decides: it is applied and answered
  with the rows written, it is answered with an empty result and nothing is written
  (the case the handlers test with \<^verbatim>\<open>if not result.data\<close>), or the client raises
  (the case the handlers catch with \<^verbatim>\<open>except Exception\<close>) and nothing is written.
  The store keeps a journal of the write calls issued, in the order of issue.
\<close>

datatype outcome = Applied | NoData | Raised

datatype db_write =
    InsertOrder string OrderStatus string
  | InsertOrderItem nat string int
  | UpdateStock string int
  | DeleteOrder nat
  | UpdateStatus nat OrderStatus
  | UpdateItem string InventoryItemUpdate

record store =
  inventory_items :: "inventory_row list"
  orders :: "order_row list"
  order_items :: "order_item_row list"
  next_id :: nat
  journal :: "db_write list"

definition issue :: "db_write \<Rightarrow> store \<Rightarrow> store" where
  "issue w s = s\<lparr>journal := journal s @ [w]\<rparr>"

definition select_inventory_item :: "store \<Rightarrow> string \<Rightarrow> inventory_row list" where
  "select_inventory_item s i = filter (\<lambda>r. inv_id r = i) (inventory_items s)"

definition select_order :: "store \<Rightarrow> nat \<Rightarrow> order_row list" where
  "select_order s n = filter (\<lambda>r. ord_id r = n) (orders s)"

definition select_order_items :: "store \<Rightarrow> nat \<Rightarrow> order_item_row list" where
  "select_order_items s n = filter (\<lambda>r. oi_order_id r = n) (order_items s)"

text \<open>A reply is \<open>None\<close> when the client raised, the rows of \<^verbatim>\<open>result.data\<close> otherwise.\<close>

definition insert_order ::
  "outcome \<Rightarrow> string \<Rightarrow> OrderStatus \<Rightarrow> string \<Rightarrow> store \<Rightarrow> order_row list option \<times> store" where
  "insert_order oc c st u s =
     (let s0 = issue (InsertOrder c st u) s in
      case oc of
        Raised \<Rightarrow> (None, s0)
      | NoData \<Rightarrow> (Some [], s0)
      | Applied \<Rightarrow>
          (let r = \<lparr>ord_id = next_id s, ord_customer_name = c, ord_status = st,
                    ord_created_by = u\<rparr>
           in (Some [r], s0\<lparr>orders := orders s @ [r], next_id := Suc (next_id s)\<rparr>)))"

definition insert_order_item ::
  "outcome \<Rightarrow> nat \<Rightarrow> string \<Rightarrow> int \<Rightarrow> store \<Rightarrow> order_item_row list option \<times> store" where
  "insert_order_item oc n i q s =
     (let s0 = issue (InsertOrderItem n i q) s in
      case oc of
        Raised \<Rightarrow> (None, s0)
      | NoData \<Rightarrow> (Some [], s0)
      | Applied \<Rightarrow>
          (let r = \<lparr>oi_id = next_id s, oi_order_id = n, oi_item_id = i, oi_quantity = q\<rparr>
           in (Some [r], s0\<lparr>order_items := order_items s @ [r], next_id := Suc (next_id s)\<rparr>)))"

definition set_stock :: "string \<Rightarrow> int \<Rightarrow> inventory_row \<Rightarrow> inventory_row" where
  "set_stock i v r = (if inv_id r = i then r\<lparr>stock_level := v\<rparr> else r)"

definition update_stock ::
  "outcome \<Rightarrow> string \<Rightarrow> int \<Rightarrow> store \<Rightarrow> inventory_row list option \<times> store" where
  "update_stock oc i v s =
     (let s0 = issue (UpdateStock i v) s in
      case oc of
        Raised \<Rightarrow> (None, s0)
      | NoData \<Rightarrow> (Some [], s0)
      | Applied \<Rightarrow>
          (let rows = map (set_stock i v) (inventory_items s)
           in (Some (filter (\<lambda>r. inv_id r = i) rows), s0\<lparr>inventory_items := rows\<rparr>)))"

definition set_status :: "nat \<Rightarrow> OrderStatus \<Rightarrow> order_row \<Rightarrow> order_row" where
  "set_status n st r = (if ord_id r = n then r\<lparr>ord_status := st\<rparr> else r)"

definition update_status ::
  "outcome \<Rightarrow> nat \<Rightarrow> OrderStatus \<Rightarrow> store \<Rightarrow> order_row list option \<times> store" where
  "update_status oc n st s =
     (let s0 = issue (UpdateStatus n st) s in
      case oc of
        Raised \<Rightarrow> (None, s0)
      | NoData \<Rightarrow> (Some [], s0)
      | Applied \<Rightarrow>
          (let rows = map (set_status n st) (orders s)
           in (Some (filter (\<lambda>r. ord_id r = n) rows), s0\<lparr>orders := rows\<rparr>)))"

text \<open>
  The update of \<^verbatim>\<open>update_inventory_item\<close>: the dictionary \<^verbatim>\<open>update_data\<close> holds
  the fields of the request that are not \<^verbatim>\<open>None\<close>, and only those columns change.
\<close>

definition apply_update :: "InventoryItemUpdate \<Rightarrow> inventory_row \<Rightarrow> inventory_row" where
  "apply_update d r =
     r\<lparr>inv_name := (case upd_name d of None \<Rightarrow> inv_name r | Some x \<Rightarrow> x),
       inv_description := (case upd_description d of None \<Rightarrow> inv_description r | Some x \<Rightarrow> Some x),
       stock_level := (case upd_stock_level d of None \<Rightarrow> stock_level r | Some x \<Rightarrow> x),
       low_stock_threshold :=
         (case upd_low_stock_threshold d of None \<Rightarrow> low_stock_threshold r | Some x \<Rightarrow> x)\<rparr>"

definition update_item ::
  "outcome \<Rightarrow> string \<Rightarrow> InventoryItemUpdate \<Rightarrow> store \<Rightarrow> inventory_row list option \<times> store" where
  "update_item oc i d s =
     (let s0 = issue (UpdateItem i d) s in
      case oc of
        Raised \<Rightarrow> (None, s0)
      | NoData \<Rightarrow> (Some [], s0)
      | Applied \<Rightarrow>
          (let rows = map (\<lambda>r. if inv_id r = i then apply_update d r else r) (inventory_items s)
           in (Some (filter (\<lambda>r. inv_id r = i) rows), s0\<lparr>inventory_items := rows\<rparr>)))"

text \<open>
  Modelled from the spec: the table definitions (\<^verbatim>\<open>001_create_tables.sql\<close>) are not
  among the sources. Section 4.2 of the specification takes the store's referential
  behaviour to remove the lines of a deleted order header, and the comment at the
  second rollback of \<^verbatim>\<open>create_order\<close> relies on it, so deleting a header here
  removes its lines.
\<close>

definition delete_order :: "outcome \<Rightarrow> nat \<Rightarrow> store \<Rightarrow> order_row list option \<times> store" where
  "delete_order oc n s =
     (let s0 = issue (DeleteOrder n) s in
      case oc of
        Raised \<Rightarrow> (None, s0)
      | NoData \<Rightarrow> (Some [], s0)
      | Applied \<Rightarrow>
          (Some (filter (\<lambda>r. ord_id r = n) (orders s)),
           s0\<lparr>orders := filter (\<lambda>r. ord_id r \<noteq> n) (orders s),
              order_items := filter (\<lambda>r. oi_order_id r \<noteq> n) (order_items s)\<rparr>))"

text \<open>
  The outcomes of the writes of one request, in the order the writes are issued.
  Once the script is used up, every further write is applied.
\<close>

definition next_outcome :: "outcome list \<Rightarrow> outcome" where
  "next_outcome sch = (case sch of [] \<Rightarrow> Applied | oc # _ \<Rightarrow> oc)"

section \<open>Role checks (\<^verbatim>\<open>auth/dependencies.py\<close>)\<close>

definition require_salesperson :: "current_user \<Rightarrow> http_exception + current_user" where
  "require_salesperson u =
     (if role u \<noteq> ''salesperson''
      then Inl (HTTPException 403 (Msg ''Salesperson access required''))
      else Inr u)"

definition require_warehouse_manager_or_admin ::
  "current_user \<Rightarrow> http_exception + current_user" where
  "require_warehouse_manager_or_admin u =
     (if role u \<notin> set [''warehouse_manager'', ''admin'']
      then Inl (HTTPException 403 (Msg ''Warehouse manager or admin access required''))
      else Inr u)"

definition require_authenticated_user :: "current_user \<Rightarrow> http_exception + current_user" where
  "require_authenticated_user u = Inr u"

section \<open>Order creation (\<^verbatim>\<open>create_order\<close>)\<close>

text \<open>
  The first loop: one read per requested line, the problems appended to
  \<^verbatim>\<open>stock_validation_errors\<close>, the row read stored in the dictionary
  \<^verbatim>\<open>inventory_items\<close> under the item identifier.
\<close>

fun validate_stock ::
  "store \<Rightarrow> OrderItemCreate list \<Rightarrow> stock_problem list \<Rightarrow> (string \<rightharpoonup> inventory_row) \<Rightarrow>
     stock_problem list \<times> (string \<rightharpoonup> inventory_row)" where
  "validate_stock s [] errs cache = (errs, cache)"
| "validate_stock s (l # ls) errs cache =
     (case select_inventory_item s (item_id l) of
        [] \<Rightarrow> validate_stock s ls (errs @ [ItemNotFound (item_id l)]) cache
      | row # _ \<Rightarrow>
          (if stock_level row < quantity l
           then validate_stock s ls
                  (errs @ [InsufficientFor (inv_name row) (quantity l) (stock_level row)])
                  (cache(item_id l \<mapsto> row))
           else validate_stock s ls errs (cache(item_id l \<mapsto> row))))"

definition internal_error :: "string \<Rightarrow> http_exception" where
  "internal_error m = HTTPException 500 (Msg m)"

definition creation_error :: http_exception where
  "creation_error = internal_error ''Internal server error during order creation''"

text \<open>
  The rollback of the second loop: the delete of the order header is issued and its
  result is not looked at; when the client raises, the handler's last
  \<^verbatim>\<open>except\<close> clause answers instead.
\<close>

definition rollback ::
  "outcome list \<Rightarrow> nat \<Rightarrow> string \<Rightarrow> store \<Rightarrow> (http_exception + OrderItemResponse list) \<times> store" where
  "rollback sch n m s =
     (case delete_order (next_outcome sch) n s of
        (None, s') \<Rightarrow> (Inl creation_error, s')
      | (Some _, s') \<Rightarrow> (Inl (HTTPException 500 (Msg m)), s'))"

text \<open>
  The second loop: for each line, in request order, the insert of the order item and
  then the update of the stock level to the level read in the first loop minus the
  quantity of the line.
\<close>

fun commit_items ::
  "(string \<rightharpoonup> inventory_row) \<Rightarrow> nat \<Rightarrow> OrderItemCreate list \<Rightarrow> outcome list \<Rightarrow>
     OrderItemResponse list \<Rightarrow> store \<Rightarrow> (http_exception + OrderItemResponse list) \<times> store" where
  "commit_items cache n [] sch acc s = (Inr acc, s)"
| "commit_items cache n (l # ls) sch acc s =
     (case insert_order_item (next_outcome sch) n (item_id l) (quantity l) s of
        (None, s1) \<Rightarrow> (Inl creation_error, s1)
      | (Some [], s1) \<Rightarrow> rollback (tl sch) n ''Failed to create order items'' s1
      | (Some (created # _), s1) \<Rightarrow>
          (case cache (item_id l) of
             None \<Rightarrow> (Inl creation_error, s1)
           | Some inventory_item \<Rightarrow>
               (let new_stock_level = stock_level inventory_item - quantity l in
                case update_stock (next_outcome (tl sch)) (item_id l) new_stock_level s1 of
                  (None, s2) \<Rightarrow> (Inl creation_error, s2)
                | (Some [], s2) \<Rightarrow>
                    rollback (tl (tl sch)) n ''Failed to update inventory stock levels'' s2
                | (Some _, s2) \<Rightarrow>
                    commit_items cache n ls (tl (tl sch))
                      (acc @ [\<lparr>ri_id = oi_id created, ri_item_id = item_id l,
                                ri_item_name = inv_name inventory_item,
                                ri_quantity = quantity l\<rparr>]) s2)))"

text \<open>The body of the handler, entered with the user the role check returned.\<close>

definition create_order_body ::
  "OrderCreate \<Rightarrow> current_user \<Rightarrow> outcome list \<Rightarrow> store \<Rightarrow>
     (http_exception + OrderResponse) \<times> store" where
  "create_order_body order_data u sch s =
     (case validate_stock s (items order_data) [] Map.empty of
        (e # es, _) \<Rightarrow> (Inl (HTTPException 400 (InsufficientStock (e # es))), s)
      | ([], cache) \<Rightarrow>
          (case insert_order (next_outcome sch) (customer_name order_data) PENDING (user_id u) s of
             (None, s1) \<Rightarrow> (Inl creation_error, s1)
           | (Some [], s1) \<Rightarrow> (Inl (HTTPException 500 (Msg ''Failed to create order'')), s1)
           | (Some (created_order # _), s1) \<Rightarrow>
               (case commit_items cache (ord_id created_order) (items order_data) (tl sch) [] s1 of
                  (Inl e, s2) \<Rightarrow> (Inl e, s2)
                | (Inr order_items_data, s2) \<Rightarrow>
                    (Inr \<lparr>resp_id = ord_id created_order,
                          resp_customer_name = ord_customer_name created_order,
                          resp_status = ord_status created_order,
                          resp_items = order_items_data,
                          resp_created_by = ord_created_by created_order\<rparr>, s2))))"

text \<open>The endpoint: the dependency \<^verbatim>\<open>require_salesperson\<close> runs before the body.\<close>

definition create_order ::
  "current_user \<Rightarrow> OrderCreate \<Rightarrow> outcome list \<Rightarrow> store \<Rightarrow>
     (http_exception + OrderResponse) \<times> store" where
  "create_order u order_data sch s =
     (case require_salesperson u of
        Inl e \<Rightarrow> (Inl e, s)
      | Inr u' \<Rightarrow> create_order_body order_data u' sch s)"

section \<open>Reading an order and changing its status\<close>

text \<open>
  The select \<^verbatim>\<open>"*, inventory_items(name)"\<close> embeds in each order item the row of
  the inventory item it refers to. With no such row the embedded value is null and
  \<^verbatim>\<open>order_item["inventory_items"]["name"]\<close> raises, which is \<open>None\<close> here.
\<close>

fun order_items_with_names :: "store \<Rightarrow> order_item_row list \<Rightarrow> OrderItemResponse list option" where
  "order_items_with_names s [] = Some []"
| "order_items_with_names s (r # rs) =
     (case select_inventory_item s (oi_item_id r) of
        [] \<Rightarrow> None
      | it # _ \<Rightarrow>
          (case order_items_with_names s rs of
             None \<Rightarrow> None
           | Some rest \<Rightarrow>
               Some (\<lparr>ri_id = oi_id r, ri_item_id = oi_item_id r, ri_item_name = inv_name it,
                       ri_quantity = oi_quantity r\<rparr> # rest)))"

definition order_response :: "order_row \<Rightarrow> OrderItemResponse list \<Rightarrow> OrderResponse" where
  "order_response r its =
     \<lparr>resp_id = ord_id r, resp_customer_name = ord_customer_name r, resp_status = ord_status r,
      resp_items = its, resp_created_by = ord_created_by r\<rparr>"

definition get_order_details_body :: "nat \<Rightarrow> store \<Rightarrow> http_exception + OrderResponse" where
  "get_order_details_body n s =
     (case select_order s n of
        [] \<Rightarrow> Inl (HTTPException 404 (Msg ''Order not found''))
      | order # _ \<Rightarrow>
          (case order_items_with_names s (select_order_items s n) of
             None \<Rightarrow> Inl (internal_error ''Internal server error while retrieving order details'')
           | Some its \<Rightarrow> Inr (order_response order its)))"

definition get_order_details :: "current_user \<Rightarrow> nat \<Rightarrow> store \<Rightarrow> http_exception + OrderResponse" where
  "get_order_details u n s =
     (case require_authenticated_user u of
        Inl e \<Rightarrow> Inl e
      | Inr _ \<Rightarrow> get_order_details_body n s)"

definition status_error :: http_exception where
  "status_error = internal_error ''Internal server error during order status update''"

text \<open>
  What a field declared with the type \<^verbatim>\<open>OrderStatus\<close> holds after validation: the
  member of the enumeration, or its value, a plain string. The request model
  \<^verbatim>\<open>OrderStatusUpdate\<close> sets \<^verbatim>\<open>use_enum_values = True\<close>, so its field
  \<^verbatim>\<open>status\<close> holds the value. The status column of a row holds the same string,
  which the rows here identify with the member.
\<close>

datatype status_field = EnumMember OrderStatus | EnumValue OrderStatus

definition status_update_status :: "OrderStatus \<Rightarrow> status_field" where
  "status_update_status st = EnumValue st"

text \<open>
  The attribute \<^verbatim>\<open>.value\<close>: a member of the enumeration has it, a string has not,
  and reading it raises \<^verbatim>\<open>AttributeError\<close>, which is \<open>None\<close> here.
\<close>

fun value_attr :: "status_field \<Rightarrow> OrderStatus option" where
  "value_attr (EnumMember m) = Some m"
| "value_attr (EnumValue m) = None"

text \<open>
  The body of the handler. The dictionary of the update is built from
  \<^verbatim>\<open>new_status.value\<close> before the update is issued; when reading the attribute
  raises, the handler's last \<^verbatim>\<open>except\<close> clause answers and no write is issued.
\<close>

definition update_order_status_body ::
  "nat \<Rightarrow> OrderStatus \<Rightarrow> outcome \<Rightarrow> store \<Rightarrow> (http_exception + OrderResponse) \<times> store" where
  "update_order_status_body n st oc s =
     (case select_order s n of
        [] \<Rightarrow> (Inl (HTTPException 404 (Msg ''Order not found'')), s)
      | current_order # _ \<Rightarrow>
          (let new_status = status_update_status st in
           case value_attr new_status of
             None \<Rightarrow> (Inl status_error, s)
           | Some v \<Rightarrow>
               (case update_status oc n v s of
                  (None, s1) \<Rightarrow> (Inl status_error, s1)
                | (Some [], s1) \<Rightarrow>
                    (Inl (HTTPException 500 (Msg ''Failed to update order status'')), s1)
                | (Some (updated_order # _), s1) \<Rightarrow>
                    (case order_items_with_names s1 (select_order_items s1 n) of
                       None \<Rightarrow> (Inl status_error, s1)
                     | Some its \<Rightarrow> (Inr (order_response updated_order its), s1)))))"

definition update_order_status ::
  "current_user \<Rightarrow> nat \<Rightarrow> OrderStatus \<Rightarrow> outcome \<Rightarrow> store \<Rightarrow>
     (http_exception + OrderResponse) \<times> store" where
  "update_order_status u n new_status oc s =
     (case require_warehouse_manager_or_admin u of
        Inl e \<Rightarrow> (Inl e, s)
      | Inr _ \<Rightarrow> update_order_status_body n new_status oc s)"

section \<open>Renaming an inventory item (\<^verbatim>\<open>update_inventory_item\<close>)\<close>

definition item_response :: "inventory_row \<Rightarrow> InventoryItemResponse" where
  "item_response r =
     \<lparr>ir_id = inv_id r, ir_name = inv_name r, ir_description = inv_description r,
      ir_stock_level = stock_level r, ir_low_stock_threshold = low_stock_threshold r\<rparr>"

definition name_taken :: "store \<Rightarrow> string \<Rightarrow> InventoryItemUpdate \<Rightarrow> bool" where
  "name_taken s i d =
     (case upd_name d of
        None \<Rightarrow> False
      | Some x \<Rightarrow> filter (\<lambda>r. inv_name r = x \<and> inv_id r \<noteq> i) (inventory_items s) \<noteq> [])"

definition no_fields :: "InventoryItemUpdate \<Rightarrow> bool" where
  "no_fields d =
     (upd_name d = None \<and> upd_description d = None \<and> upd_stock_level d = None
      \<and> upd_low_stock_threshold d = None)"

definition update_inventory_item_body ::
  "string \<Rightarrow> InventoryItemUpdate \<Rightarrow> outcome \<Rightarrow> store \<Rightarrow>
     (http_exception + InventoryItemResponse) \<times> store" where
  "update_inventory_item_body i item_data oc s =
     (case select_inventory_item s i of
        [] \<Rightarrow> (Inl (HTTPException 404 (Msg ''Inventory item not found'')), s)
      | existing_item # _ \<Rightarrow>
          (if name_taken s i item_data
           then (Inl (HTTPException 409
                   (Msg ''Another inventory item with this name already exists'')), s)
           else if no_fields item_data then (Inr (item_response existing_item), s)
           else
             (case update_item oc i item_data s of
                (None, s1) \<Rightarrow>
                  (Inl (internal_error ''Internal server error during inventory item update''), s1)
              | (Some [], s1) \<Rightarrow>
                  (Inl (HTTPException 500 (Msg ''Failed to update inventory item'')), s1)
              | (Some (updated_item # _), s1) \<Rightarrow> (Inr (item_response updated_item), s1))))"

definition update_inventory_item ::
  "current_user \<Rightarrow> string \<Rightarrow> InventoryItemUpdate \<Rightarrow> outcome \<Rightarrow> store \<Rightarrow>
     (http_exception + InventoryItemResponse) \<times> store" where
  "update_inventory_item u i item_data oc s =
     (case require_warehouse_manager_or_admin u of
        Inl e \<Rightarrow> (Inl e, s)
      | Inr _ \<Rightarrow> update_inventory_item_body i item_data oc s)"

section \<open>Notions used to state the properties\<close>

text \<open>
  A requested line is unsatisfiable when its item is not found or when the requested
  quantity is greater than the stock level read for the item.
\<close>

definition unsatisfiable :: "store \<Rightarrow> OrderItemCreate \<Rightarrow> bool" where
  "unsatisfiable s l =
     (case select_inventory_item s (item_id l) of
        [] \<Rightarrow> True
      | row # _ \<Rightarrow> stock_level row < quantity l)"

text \<open>The entry of the rejection's detail list that reports an unsatisfiable line.\<close>

definition problem_of :: "store \<Rightarrow> OrderItemCreate \<Rightarrow> stock_problem" where
  "problem_of s l =
     (case select_inventory_item s (item_id l) of
        [] \<Rightarrow> ItemNotFound (item_id l)
      | row # _ \<Rightarrow> InsufficientFor (inv_name row) (quantity l) (stock_level row))"

text \<open>The row a read of an item returns as \<^verbatim>\<open>data[0]\<close>, and its stock level.\<close>

definition read_row :: "store \<Rightarrow> string \<Rightarrow> inventory_row option" where
  "read_row s i = (case select_inventory_item s i of [] \<Rightarrow> None | row # _ \<Rightarrow> Some row)"

definition stock_of :: "store \<Rightarrow> string \<Rightarrow> int option" where
  "stock_of s i = map_option stock_level (read_row s i)"

definition stock_nonneg :: "store \<Rightarrow> bool" where
  "stock_nonneg s = list_all (\<lambda>r. 0 \<le> stock_level r) (inventory_items s)"

text \<open>
  What the first loop leaves in the dictionary when it reports no problem: a row for
  the item of every line, with a stock level that covers the line's quantity.
\<close>

definition cache_covers :: "(string \<rightharpoonup> inventory_row) \<Rightarrow> OrderItemCreate list \<Rightarrow> bool" where
  "cache_covers cache ls =
     list_all (\<lambda>l. case cache (item_id l) of
                     None \<Rightarrow> False
                   | Some row \<Rightarrow> quantity l \<le> stock_level row) ls"

text \<open>
  The run of the second loop in which every write is applied, written out: the rows
  inserted in \<^verbatim>\<open>order_items\<close>, the entries of the response, the writes issued and
  the inventory table after the stock updates. The dictionary of the first loop is read
  at the items of the lines only.
\<close>

definition cached_level :: "(string \<rightharpoonup> inventory_row) \<Rightarrow> string \<Rightarrow> int" where
  "cached_level cache i = (case cache i of None \<Rightarrow> 0 | Some row \<Rightarrow> stock_level row)"

definition cached_name :: "(string \<rightharpoonup> inventory_row) \<Rightarrow> string \<Rightarrow> string" where
  "cached_name cache i = (case cache i of None \<Rightarrow> [] | Some row \<Rightarrow> inv_name row)"

fun new_rows :: "nat \<Rightarrow> nat \<Rightarrow> OrderItemCreate list \<Rightarrow> order_item_row list" where
  "new_rows n k [] = []"
| "new_rows n k (l # ls) =
     \<lparr>oi_id = k, oi_order_id = n, oi_item_id = item_id l, oi_quantity = quantity l\<rparr>
       # new_rows n (Suc k) ls"

fun responses ::
  "(string \<rightharpoonup> inventory_row) \<Rightarrow> nat \<Rightarrow> OrderItemCreate list \<Rightarrow> OrderItemResponse list" where
  "responses cache k [] = []"
| "responses cache k (l # ls) =
     \<lparr>ri_id = k, ri_item_id = item_id l, ri_item_name = cached_name cache (item_id l),
      ri_quantity = quantity l\<rparr> # responses cache (Suc k) ls"

fun line_writes ::
  "(string \<rightharpoonup> inventory_row) \<Rightarrow> nat \<Rightarrow> OrderItemCreate list \<Rightarrow> db_write list" where
  "line_writes cache n [] = []"
| "line_writes cache n (l # ls) =
     InsertOrderItem n (item_id l) (quantity l)
       # UpdateStock (item_id l) (cached_level cache (item_id l) - quantity l)
       # line_writes cache n ls"

fun stock_writes ::
  "(string \<rightharpoonup> inventory_row) \<Rightarrow> OrderItemCreate list \<Rightarrow> inventory_row list \<Rightarrow>
     inventory_row list" where
  "stock_writes cache [] rows = rows"
| "stock_writes cache (l # ls) rows =
     stock_writes cache ls
       (map (set_stock (item_id l) (cached_level cache (item_id l) - quantity l)) rows)"

text \<open>What the stock updates of the lines, applied in request order, make of one row.\<close>

fun final_row ::
  "(string \<rightharpoonup> inventory_row) \<Rightarrow> OrderItemCreate list \<Rightarrow> inventory_row \<Rightarrow> inventory_row" where
  "final_row cache [] r = r"
| "final_row cache (l # ls) r =
     final_row cache ls (set_stock (item_id l) (cached_level cache (item_id l) - quantity l) r)"

text \<open>
  The store hands out an identifier once: no row of \<^verbatim>\<open>orders\<close> or
  \<^verbatim>\<open>order_items\<close> carries an order identifier that is still to be allocated.
\<close>

definition fresh_ids :: "store \<Rightarrow> bool" where
  "fresh_ids s =
     (list_all (\<lambda>r. ord_id r < next_id s) (orders s)
      \<and> list_all (\<lambda>r. oi_order_id r < next_id s) (order_items s))"

text \<open>A stock update that writes a negative level is the one write that is not sound.\<close>

fun sound_write :: "db_write \<Rightarrow> bool" where
  "sound_write (UpdateStock i v) = (0 \<le> v)"
| "sound_write _ = True"

text \<open>
  The header row, the store and the response of an order creation in which every write
  is applied.
\<close>

definition header :: "current_user \<Rightarrow> OrderCreate \<Rightarrow> store \<Rightarrow> order_row" where
  "header u d s =
     \<lparr>ord_id = next_id s, ord_customer_name = customer_name d, ord_status = PENDING,
      ord_created_by = user_id u\<rparr>"

definition committed :: "current_user \<Rightarrow> OrderCreate \<Rightarrow> store \<Rightarrow> store" where
  "committed u d s =
     s\<lparr>inventory_items := stock_writes (read_row s) (items d) (inventory_items s),
       orders := orders s @ [header u d s],
       order_items := order_items s @ new_rows (next_id s) (Suc (next_id s)) (items d),
       next_id := Suc (next_id s) + length (items d),
       journal := journal s @ InsertOrder (customer_name d) PENDING (user_id u)
                    # line_writes (read_row s) (next_id s) (items d)\<rparr>"

definition confirmation :: "current_user \<Rightarrow> OrderCreate \<Rightarrow> store \<Rightarrow> OrderResponse" where
  "confirmation u d s =
     \<lparr>resp_id = next_id s, resp_customer_name = customer_name d, resp_status = PENDING,
      resp_items = responses (read_row s) (Suc (next_id s)) (items d),
      resp_created_by = user_id u\<rparr>"

subsection \<open>Example data\<close>

definition item_A :: inventory_row where
  "item_A = \<lparr>inv_id = ''A'', inv_name = ''Birch 18mm'', inv_description = None,
             stock_level = 5, low_stock_threshold = 1\<rparr>"

definition item_B :: inventory_row where
  "item_B = \<lparr>inv_id = ''B'', inv_name = ''Marine 12mm'', inv_description = None,
             stock_level = 2, low_stock_threshold = 1\<rparr>"

definition shop :: store where
  "shop = \<lparr>inventory_items = [item_A, item_B], orders = [], order_items = [],
           next_id = 0, journal = []\<rparr>"

definition only_A :: store where
  "only_A = \<lparr>inventory_items = [item_A], orders = [], order_items = [],
             next_id = 0, journal = []\<rparr>"

definition seller :: current_user where
  "seller = \<lparr>user_id = ''u-sales'', role = ''salesperson''\<rparr>"

definition manager :: current_user where
  "manager = \<lparr>user_id = ''u-wm'', role = ''warehouse_manager''\<rparr>"

definition admin :: current_user where
  "admin = \<lparr>user_id = ''u-admin'', role = ''admin''\<rparr>"

definition line :: "string \<Rightarrow> int \<Rightarrow> OrderItemCreate" where
  "line i q = \<lparr>item_id = i, quantity = q\<rparr>"

definition request :: "OrderItemCreate list \<Rightarrow> OrderCreate" where
  "request ls = \<lparr>customer_name = ''Acme Joinery'', items = ls\<rparr>"

text \<open>
  Items A (stock 5) and B (stock 2), a request for three of A and one of B, every write
  applied.
\<close>

definition placed :: OrderResponse where
  "placed =
     \<lparr>resp_id = 0, resp_customer_name = ''Acme Joinery'', resp_status = PENDING,
      resp_items =
        [\<lparr>ri_id = 1, ri_item_id = ''A'', ri_item_name = ''Birch 18mm'', ri_quantity = 3\<rparr>,
         \<lparr>ri_id = 2, ri_item_id = ''B'', ri_item_name = ''Marine 12mm'', ri_quantity = 1\<rparr>],
      resp_created_by = ''u-sales''\<rparr>"

definition shop_after :: store where
  "shop_after =
     \<lparr>inventory_items = [item_A\<lparr>stock_level := 2\<rparr>, item_B\<lparr>stock_level := 1\<rparr>],
      orders = [\<lparr>ord_id = 0, ord_customer_name = ''Acme Joinery'', ord_status = PENDING,
                 ord_created_by = ''u-sales''\<rparr>],
      order_items =
        [\<lparr>oi_id = 1, oi_order_id = 0, oi_item_id = ''A'', oi_quantity = 3\<rparr>,
         \<lparr>oi_id = 2, oi_order_id = 0, oi_item_id = ''B'', oi_quantity = 1\<rparr>],
      next_id = 3,
      journal =
        [InsertOrder ''Acme Joinery'' PENDING ''u-sales'',
         InsertOrderItem 0 ''A'' 3, UpdateStock ''A'' 2,
         InsertOrderItem 0 ''B'' 1, UpdateStock ''B'' 1]\<rparr>"

text \<open>A request for three of item A alone, and the renaming of item A.\<close>

definition placed_A :: OrderResponse where
  "placed_A =
     \<lparr>resp_id = 0, resp_customer_name = ''Acme Joinery'', resp_status = PENDING,
      resp_items =
        [\<lparr>ri_id = 1, ri_item_id = ''A'', ri_item_name = ''Birch 18mm'', ri_quantity = 3\<rparr>],
      resp_created_by = ''u-sales''\<rparr>"

definition rename_A :: InventoryItemUpdate where
  "rename_A = \<lparr>upd_name = Some ''Oak 18mm'', upd_description = None, upd_stock_level = None,
                upd_low_stock_threshold = None\<rparr>"

definition shop_sold :: store where
  "shop_sold = snd (create_order seller (request [line ''A'' 3]) [] shop)"

definition shop_renamed :: store where
  "shop_renamed = snd (update_inventory_item manager ''A'' rename_A Applied shop_sold)"

text \<open>A request that names item A twice, three units each time, every write applied.\<close>

definition placed_twice :: OrderResponse where
  "placed_twice =
     \<lparr>resp_id = 0, resp_customer_name = ''Acme Joinery'', resp_status = PENDING,
      resp_items =
        [\<lparr>ri_id = 1, ri_item_id = ''A'', ri_item_name = ''Birch 18mm'', ri_quantity = 3\<rparr>,
         \<lparr>ri_id = 2, ri_item_id = ''A'', ri_item_name = ''Birch 18mm'', ri_quantity = 3\<rparr>],
      resp_created_by = ''u-sales''\<rparr>"

definition shop_twice :: store where
  "shop_twice =
     \<lparr>inventory_items = [item_A\<lparr>stock_level := 2\<rparr>, item_B],
      orders = [\<lparr>ord_id = 0, ord_customer_name = ''Acme Joinery'', ord_status = PENDING,
                 ord_created_by = ''u-sales''\<rparr>],
      order_items =
        [\<lparr>oi_id = 1, oi_order_id = 0, oi_item_id = ''A'', oi_quantity = 3\<rparr>,
         \<lparr>oi_id = 2, oi_order_id = 0, oi_item_id = ''A'', oi_quantity = 3\<rparr>],
      next_id = 3,
      journal =
        [InsertOrder ''Acme Joinery'' PENDING ''u-sales'',
         InsertOrderItem 0 ''A'' 3, UpdateStock ''A'' 2,
         InsertOrderItem 0 ''A'' 3, UpdateStock ''A'' 2]\<rparr>"

text \<open>The same request after the header, the first line and its stock update.\<close>

definition shop_midway :: store where
  "shop_midway =
     \<lparr>inventory_items = [item_A\<lparr>stock_level := 2\<rparr>, item_B],
      orders = [\<lparr>ord_id = 0, ord_customer_name = ''Acme Joinery'', ord_status = PENDING,
                 ord_created_by = ''u-sales''\<rparr>],
      order_items = [\<lparr>oi_id = 1, oi_order_id = 0, oi_item_id = ''A'', oi_quantity = 3\<rparr>],
      next_id = 2,
      journal =
        [InsertOrder ''Acme Joinery'' PENDING ''u-sales'',
         InsertOrderItem 0 ''A'' 3, UpdateStock ''A'' 2]\<rparr>"

text \<open>
  The first example again, but the client raises on the last write, the stock update of
  the second line: the store the handler leaves behind.
\<close>

definition shop_torn :: store where
  "shop_torn =
     \<lparr>inventory_items = [item_A\<lparr>stock_level := 2\<rparr>, item_B],
      orders = [\<lparr>ord_id = 0, ord_customer_name = ''Acme Joinery'', ord_status = PENDING,
                 ord_created_by = ''u-sales''\<rparr>],
      order_items =
        [\<lparr>oi_id = 1, oi_order_id = 0, oi_item_id = ''A'', oi_quantity = 3\<rparr>,
         \<lparr>oi_id = 2, oi_order_id = 0, oi_item_id = ''B'', oi_quantity = 1\<rparr>],
      next_id = 3,
      journal =
        [InsertOrder ''Acme Joinery'' PENDING ''u-sales'',
         InsertOrderItem 0 ''A'' 3, UpdateStock ''A'' 2,
         InsertOrderItem 0 ''B'' 1, UpdateStock ''B'' 1]\<rparr>"

section \<open>The effect of the store's calls\<close>

lemma insert_order_inventory:
  "inventory_items (snd (insert_order oc c st u s)) = inventory_items s"
  by (simp add: insert_order_def issue_def Let_def split: outcome.splits)

lemma insert_order_item_inventory:
  "inventory_items (snd (insert_order_item oc n i q s)) = inventory_items s"
  by (simp add: insert_order_item_def issue_def Let_def split: outcome.splits)

lemma delete_order_inventory:
  "inventory_items (snd (delete_order oc n s)) = inventory_items s"
  by (simp add: delete_order_def issue_def Let_def split: outcome.splits)

lemma snd_rollback: "snd (rollback sch n m s) = snd (delete_order (next_outcome sch) n s)"
  by (cases "delete_order (next_outcome sch) n s") (simp add: rollback_def split: option.splits)

lemma rollback_inventory:
  "inventory_items (snd (rollback sch n m s)) = inventory_items s"
  by (simp add: snd_rollback delete_order_inventory)

lemma update_stock_nonneg:
  "0 \<le> v \<Longrightarrow> stock_nonneg s \<Longrightarrow> stock_nonneg (snd (update_stock oc i v s))"
  by (auto simp: update_stock_def issue_def Let_def stock_nonneg_def set_stock_def list_all_iff
      split: outcome.splits)

lemma rollback_nonneg: "stock_nonneg s \<Longrightarrow> stock_nonneg (snd (rollback sch n m s))"
  by (simp add: stock_nonneg_def rollback_inventory)

lemma insert_order_item_nonneg:
  "stock_nonneg s \<Longrightarrow> stock_nonneg (snd (insert_order_item oc n i q s))"
  by (simp add: stock_nonneg_def insert_order_item_inventory)

section \<open>The validation loop\<close>

lemma validate_stock_errors:
  "fst (validate_stock s ls errs cache) = errs @ map (problem_of s) (filter (unsatisfiable s) ls)"
  by (induction ls arbitrary: errs cache)
     (auto simp: unsatisfiable_def problem_of_def split: list.splits)

lemma validate_stock_cache:
  "snd (validate_stock s ls errs cache) i =
     (if i \<in> item_id ` set ls \<and> read_row s i \<noteq> None then read_row s i else cache i)"
  by (induction ls arbitrary: errs cache)
     (auto simp: read_row_def split: list.splits)

lemma validated_no_problem:
  assumes "validate_stock s ls [] Map.empty = ([], cache)" and "l \<in> set ls"
  shows "\<not> unsatisfiable s l"
proof -
  have "filter (unsatisfiable s) ls = []"
    using validate_stock_errors [of s ls "[]" Map.empty] assms(1) by simp
  then show ?thesis using assms(2) by (auto simp: filter_empty_conv)
qed

lemma validated_cache:
  assumes "validate_stock s ls [] Map.empty = ([], cache)" and "l \<in> set ls"
  shows "cache (item_id l) = read_row s (item_id l)"
  using validate_stock_cache [of s ls "[]" Map.empty "item_id l"] assms by auto

lemma validated_cache_covers:
  assumes "validate_stock s ls [] Map.empty = ([], cache)"
  shows "cache_covers cache ls"
proof -
  have "case cache (item_id l) of None \<Rightarrow> False | Some row \<Rightarrow> quantity l \<le> stock_level row"
    if "l \<in> set ls" for l
    using validated_no_problem [OF assms that] validated_cache [OF assms that]
    by (auto simp: unsatisfiable_def read_row_def split: list.splits)
  then show ?thesis by (simp add: cache_covers_def list_all_iff)
qed

lemma create_order_body_rejected:
  "validate_stock s (items d) [] Map.empty = (e # es, cache) \<Longrightarrow>
     create_order_body d u sch s = (Inl (HTTPException 400 (InsufficientStock (e # es))), s)"
  by (simp add: create_order_body_def)

lemma create_order_body_validated:
  "validate_stock s (items d) [] Map.empty = ([], cache) \<Longrightarrow>
     create_order_body d u sch s =
       (case insert_order (next_outcome sch) (customer_name d) PENDING (user_id u) s of
          (None, s1) \<Rightarrow> (Inl creation_error, s1)
        | (Some [], s1) \<Rightarrow> (Inl (HTTPException 500 (Msg ''Failed to create order'')), s1)
        | (Some (created_order # _), s1) \<Rightarrow>
            (case commit_items cache (ord_id created_order) (items d) (tl sch) [] s1 of
               (Inl e, s2) \<Rightarrow> (Inl e, s2)
             | (Inr order_items_data, s2) \<Rightarrow>
                 (Inr \<lparr>resp_id = ord_id created_order,
                       resp_customer_name = ord_customer_name created_order,
                       resp_status = ord_status created_order,
                       resp_items = order_items_data,
                       resp_created_by = ord_created_by created_order\<rparr>, s2)))"
  by (simp add: create_order_body_def)

lemma create_order_body_rejects:
  assumes "l \<in> set (items d)" "unsatisfiable s l"
  shows "create_order_body d u sch s =
           (Inl (HTTPException 400 (InsufficientStock
              (map (problem_of s) (filter (unsatisfiable s) (items d))))), s)"
proof (cases "validate_stock s (items d) [] Map.empty")
  case (Pair errs cache)
  have e: "errs = map (problem_of s) (filter (unsatisfiable s) (items d))"
    using validate_stock_errors [of s "items d" "[]" Map.empty] Pair by simp
  have "filter (unsatisfiable s) (items d) \<noteq> []"
    using assms by (auto simp: filter_empty_conv)
  then have "errs \<noteq> []" using e by simp
  then obtain x xs where x: "errs = x # xs" by (cases errs) auto
  show ?thesis
    using create_order_body_rejected [of s d x xs cache u sch] Pair x e by simp
qed

section \<open>Stock levels stay non-negative\<close>

lemma commit_items_nonneg:
  "cache_covers cache ls \<Longrightarrow> stock_nonneg s \<Longrightarrow>
     stock_nonneg (snd (commit_items cache n ls sch acc s))"
proof (induction ls arbitrary: sch acc s)
  case Nil
  then show ?case by simp
next
  case (Cons l ls)
  obtain row where row: "cache (item_id l) = Some row" "quantity l \<le> stock_level row"
    using Cons.prems(1) by (auto simp: cache_covers_def split: option.splits)
  have rest: "cache_covers cache ls" using Cons.prems(1) by (simp add: cache_covers_def)
  obtain r1 s1 where i1: "insert_order_item (next_outcome sch) n (item_id l) (quantity l) s = (r1, s1)"
    by (cases "insert_order_item (next_outcome sch) n (item_id l) (quantity l) s")
  have n1: "stock_nonneg s1"
    using insert_order_item_nonneg [OF Cons.prems(2), of "next_outcome sch" n "item_id l" "quantity l"] i1
    by simp
  obtain r2 s2 where u2:
    "update_stock (next_outcome (tl sch)) (item_id l) (stock_level row - quantity l) s1 = (r2, s2)"
    by (cases "update_stock (next_outcome (tl sch)) (item_id l) (stock_level row - quantity l) s1")
  have n2: "stock_nonneg s2"
    using update_stock_nonneg [OF _ n1, of "stock_level row - quantity l" "next_outcome (tl sch)" "item_id l"]
      u2 row(2)
    by simp
  show ?case
    using i1 u2 row(1) n1 n2 rollback_nonneg [OF n1] rollback_nonneg [OF n2] Cons.IH [OF rest n2]
    by (simp split: option.splits list.splits)
qed

lemma commit_items_nonneg_result:
  "commit_items cache n ls sch acc s = (r, s') \<Longrightarrow> cache_covers cache ls \<Longrightarrow> stock_nonneg s \<Longrightarrow>
     stock_nonneg s'"
  using commit_items_nonneg [of cache ls s n sch acc] by simp

lemma create_order_body_nonneg:
  assumes "stock_nonneg s"
  shows "stock_nonneg (snd (create_order_body d u sch s))"
proof (cases "validate_stock s (items d) [] Map.empty")
  case (Pair errs cache)
  show ?thesis
  proof (cases errs)
    case Nil
    have v: "validate_stock s (items d) [] Map.empty = ([], cache)" using Pair Nil by simp
    have cov: "cache_covers cache (items d)"
      using validated_cache_covers [OF v] .
    obtain r1 s1 where i1:
      "insert_order (next_outcome sch) (customer_name d) PENDING (user_id u) s = (r1, s1)"
      by (cases "insert_order (next_outcome sch) (customer_name d) PENDING (user_id u) s")
    have n1: "stock_nonneg s1"
      using insert_order_inventory [of "next_outcome sch" "customer_name d" PENDING "user_id u" s]
        i1 assms
      by (simp add: stock_nonneg_def)
    show ?thesis
      unfolding create_order_body_validated [OF v] i1
      using n1 by (auto split: option.splits list.splits prod.splits sum.splits
          intro: commit_items_nonneg_result [OF _ cov n1])
  next
    case (Cons e es)
    then show ?thesis using Pair assms by (simp add: create_order_body_rejected)
  qed
qed

section \<open>The run in which every write is applied\<close>

lemma inv_id_set_stock [simp]: "inv_id (set_stock i v r) = inv_id r"
  by (simp add: set_stock_def)

lemma inv_name_set_stock [simp]: "inv_name (set_stock i v r) = inv_name r"
  by (simp add: set_stock_def)

lemma next_outcome_applied:
  "list_all (\<lambda>oc. oc = Applied) sch \<Longrightarrow> next_outcome sch = Applied"
  by (cases sch) (simp_all add: next_outcome_def)

lemma tl_applied:
  "list_all (\<lambda>oc. oc = Applied) sch \<Longrightarrow> list_all (\<lambda>oc. oc = Applied) (tl sch)"
  by (cases sch) simp_all

lemma commit_items_applied:
  assumes "list_all (\<lambda>oc. oc = Applied) sch"
    and "\<forall>l\<in>set ls. cache (item_id l) \<noteq> None"
    and "\<forall>l\<in>set ls. item_id l \<in> inv_id ` set (inventory_items s)"
  shows "commit_items cache n ls sch acc s =
           (Inr (acc @ responses cache (next_id s) ls),
            s\<lparr>inventory_items := stock_writes cache ls (inventory_items s),
              order_items := order_items s @ new_rows n (next_id s) ls,
              next_id := next_id s + length ls,
              journal := journal s @ line_writes cache n ls\<rparr>)"
  using assms
proof (induction ls arbitrary: sch acc s)
  case Nil
  then show ?case by simp
next
  case (Cons l ls)
  obtain row where row: "cache (item_id l) = Some row" using Cons.prems(2) by auto
  let ?v = "stock_level row - quantity l"
  let ?r = "\<lparr>oi_id = next_id s, oi_order_id = n, oi_item_id = item_id l, oi_quantity = quantity l\<rparr>"
  let ?s1 = "s\<lparr>journal := journal s @ [InsertOrderItem n (item_id l) (quantity l)],
               order_items := order_items s @ [?r], next_id := Suc (next_id s)\<rparr>"
  let ?s2 = "?s1\<lparr>journal := journal ?s1 @ [UpdateStock (item_id l) ?v],
                 inventory_items := map (set_stock (item_id l) ?v) (inventory_items s)\<rparr>"
  let ?hit = "filter (\<lambda>r. inv_id r = item_id l) (map (set_stock (item_id l) ?v) (inventory_items s))"
  have a1: "next_outcome sch = Applied" using Cons.prems(1) by (rule next_outcome_applied)
  have a2: "next_outcome (tl sch) = Applied"
    using Cons.prems(1) by (intro next_outcome_applied tl_applied)
  have a3: "list_all (\<lambda>oc. oc = Applied) (tl (tl sch))"
    using Cons.prems(1) by (intro tl_applied)
  have i1: "insert_order_item Applied n (item_id l) (quantity l) s = (Some [?r], ?s1)"
    by (simp add: insert_order_item_def issue_def Let_def)
  have "item_id l \<in> inv_id ` set (inventory_items s)" using Cons.prems(3) by simp
  then have "?hit \<noteq> []" by (auto simp: filter_empty_conv)
  then obtain x xs where x: "?hit = x # xs" by (cases ?hit) auto
  have u2: "update_stock Applied (item_id l) ?v ?s1 = (Some (x # xs), ?s2)"
    using x by (simp add: update_stock_def issue_def Let_def)
  have p2: "\<forall>l\<in>set ls. cache (item_id l) \<noteq> None" using Cons.prems(2) by simp
  have p3: "\<forall>l\<in>set ls. item_id l \<in> inv_id ` set (inventory_items ?s2)"
    using Cons.prems(3) by (simp add: image_image)
  have step: "commit_items cache n (l # ls) sch acc s =
      commit_items cache n ls (tl (tl sch))
        (acc @ [\<lparr>ri_id = next_id s, ri_item_id = item_id l, ri_item_name = inv_name row,
                  ri_quantity = quantity l\<rparr>]) ?s2"
    by (simp add: a1 a2 i1 row u2)
  show ?case
    unfolding step Cons.IH [OF a3 p2 p3]
    by (simp add: row cached_level_def cached_name_def)
qed

lemma insert_order_item_data:
  "insert_order_item oc n i q s = (Some (x # xs), s1) \<Longrightarrow> oc = Applied"
  by (cases oc) (simp_all add: insert_order_item_def Let_def)

lemma update_stock_data:
  "update_stock oc i v s = (Some (x # xs), s1) \<Longrightarrow> oc = Applied"
  by (cases oc) (simp_all add: update_stock_def Let_def)

lemma insert_order_data:
  "insert_order oc c st u s = (Some (x # xs), s1) \<Longrightarrow> oc = Applied"
  by (cases oc) (simp_all add: insert_order_def Let_def)

lemma rollback_fails: "rollback sch n m s \<noteq> (Inr r, s')"
  by (simp add: rollback_def split: prod.splits option.splits)

lemma next_outcome_Nil [simp]: "next_outcome [] = Applied"
  by (simp add: next_outcome_def)

text \<open>A run of the second loop that succeeds is the run in which every write is applied.\<close>

lemma commit_items_success_script:
  "commit_items cache n ls sch acc s = (Inr r, s') \<Longrightarrow>
     commit_items cache n ls [] acc s = (Inr r, s')"
proof (induction ls arbitrary: sch acc s)
  case Nil
  then show ?case by simp
next
  case (Cons l ls)
  obtain r1 s1 where i1: "insert_order_item (next_outcome sch) n (item_id l) (quantity l) s = (r1, s1)"
    by (cases "insert_order_item (next_outcome sch) n (item_id l) (quantity l) s")
  from Cons.prems i1 obtain c cs where r1: "r1 = Some (c # cs)"
    by (cases r1; cases "the r1") (auto simp: rollback_fails)
  have a1: "next_outcome sch = Applied" using insert_order_item_data i1 r1 by blast
  from Cons.prems i1 r1 obtain row where row: "cache (item_id l) = Some row"
    by (cases "cache (item_id l)") auto
  obtain r2 s2 where u2:
    "update_stock (next_outcome (tl sch)) (item_id l) (stock_level row - quantity l) s1 = (r2, s2)"
    by (cases "update_stock (next_outcome (tl sch)) (item_id l) (stock_level row - quantity l) s1")
  from Cons.prems i1 r1 row u2 obtain x xs where r2: "r2 = Some (x # xs)"
    by (cases r2; cases "the r2") (auto simp: rollback_fails)
  have a2: "next_outcome (tl sch) = Applied" using update_stock_data u2 r2 by blast
  have rec: "commit_items cache n ls (tl (tl sch))
        (acc @ [\<lparr>ri_id = oi_id c, ri_item_id = item_id l, ri_item_name = inv_name row,
                  ri_quantity = quantity l\<rparr>]) s2 = (Inr r, s')"
    using Cons.prems i1 r1 row u2 r2 by simp
  show ?case
    using Cons.IH [OF rec] i1 r1 row u2 r2 a1 a2 by simp
qed

text \<open>The written-out run reads the dictionary at the items of the lines only.\<close>

lemma responses_cong:
  "\<forall>l\<in>set ls. c1 (item_id l) = c2 (item_id l) \<Longrightarrow> responses c1 k ls = responses c2 k ls"
  by (induction ls arbitrary: k) (simp_all add: cached_name_def)

lemma line_writes_cong:
  "\<forall>l\<in>set ls. c1 (item_id l) = c2 (item_id l) \<Longrightarrow> line_writes c1 n ls = line_writes c2 n ls"
  by (induction ls) (simp_all add: cached_level_def)

lemma stock_writes_cong:
  "\<forall>l\<in>set ls. c1 (item_id l) = c2 (item_id l) \<Longrightarrow> stock_writes c1 ls rows = stock_writes c2 ls rows"
  by (induction ls arbitrary: rows) (simp_all add: cached_level_def)

lemma satisfiable_read:
  "\<not> unsatisfiable s l \<Longrightarrow>
     \<exists>row. read_row s (item_id l) = Some row \<and> quantity l \<le> stock_level row
       \<and> item_id l \<in> inv_id ` set (inventory_items s)"
proof -
  assume a: "\<not> unsatisfiable s l"
  then obtain row rest where r: "select_inventory_item s (item_id l) = row # rest"
    by (cases "select_inventory_item s (item_id l)") (auto simp: unsatisfiable_def)
  then have "row \<in> set (filter (\<lambda>r. inv_id r = item_id l) (inventory_items s))"
    by (simp add: select_inventory_item_def)
  then have "item_id l \<in> inv_id ` set (inventory_items s)" by force
  then show ?thesis using a r by (simp add: unsatisfiable_def read_row_def)
qed

lemma validate_stock_passes:
  assumes "\<forall>l\<in>set ls. \<not> unsatisfiable s l"
  shows "\<exists>cache. validate_stock s ls [] Map.empty = ([], cache)
           \<and> (\<forall>l\<in>set ls. cache (item_id l) = read_row s (item_id l))"
proof -
  obtain errs cache where v: "validate_stock s ls [] Map.empty = (errs, cache)"
    by (cases "validate_stock s ls [] Map.empty")
  have "filter (unsatisfiable s) ls = []" using assms by (simp add: filter_empty_conv)
  then have "errs = []" using validate_stock_errors [of s ls "[]" Map.empty] v by simp
  then show ?thesis using v validated_cache [of s ls cache] by auto
qed

lemma create_order_body_applied:
  assumes ok: "\<forall>l\<in>set (items d). \<not> unsatisfiable s l"
    and sch: "list_all (\<lambda>oc. oc = Applied) sch"
  shows "create_order_body d u sch s = (Inr (confirmation u d s), committed u d s)"
proof -
  obtain cache where v: "validate_stock s (items d) [] Map.empty = ([], cache)"
    and c: "\<forall>l\<in>set (items d). cache (item_id l) = read_row s (item_id l)"
    using validate_stock_passes [OF ok] by blast
  let ?s1 = "s\<lparr>journal := journal s @ [InsertOrder (customer_name d) PENDING (user_id u)],
               orders := orders s @ [header u d s], next_id := Suc (next_id s)\<rparr>"
  have i1: "insert_order (next_outcome sch) (customer_name d) PENDING (user_id u) s
              = (Some [header u d s], ?s1)"
    by (simp add: next_outcome_applied [OF sch] insert_order_def issue_def Let_def header_def)
  have p2: "\<forall>l\<in>set (items d). cache (item_id l) \<noteq> None"
    using c satisfiable_read ok by fastforce
  have p3: "\<forall>l\<in>set (items d). item_id l \<in> inv_id ` set (inventory_items ?s1)"
    using satisfiable_read ok by fastforce
  have run: "commit_items cache (ord_id (header u d s)) (items d) (tl sch) [] ?s1 =
      (Inr (responses cache (Suc (next_id s)) (items d)),
       ?s1\<lparr>inventory_items := stock_writes cache (items d) (inventory_items s),
           order_items := order_items s @ new_rows (next_id s) (Suc (next_id s)) (items d),
           next_id := Suc (next_id s) + length (items d),
           journal := journal ?s1 @ line_writes cache (next_id s) (items d)\<rparr>)"
    using commit_items_applied [OF tl_applied [OF sch] p2 p3, of "next_id s" "[]"]
    by (simp add: header_def)
  have "create_order_body d u sch s =
      (Inr \<lparr>resp_id = ord_id (header u d s),
            resp_customer_name = ord_customer_name (header u d s),
            resp_status = ord_status (header u d s),
            resp_items = responses cache (Suc (next_id s)) (items d),
            resp_created_by = ord_created_by (header u d s)\<rparr>,
       ?s1\<lparr>inventory_items := stock_writes cache (items d) (inventory_items s),
           order_items := order_items s @ new_rows (next_id s) (Suc (next_id s)) (items d),
           next_id := Suc (next_id s) + length (items d),
           journal := journal ?s1 @ line_writes cache (next_id s) (items d)\<rparr>)"
    unfolding create_order_body_validated [OF v] i1
    by (simp only: prod.case option.case list.case sum.case run)
  then show ?thesis
    by (simp add: header_def confirmation_def committed_def
        responses_cong [OF c] line_writes_cong [OF c] stock_writes_cong [OF c])
qed

text \<open>A successful creation is the creation in which every write is applied.\<close>

lemma create_order_body_success:
  assumes "create_order_body d u sch s = (Inr r, s')"
  shows "(\<forall>l\<in>set (items d). \<not> unsatisfiable s l) \<and> r = confirmation u d s \<and> s' = committed u d s"
proof -
  obtain errs cache where v0: "validate_stock s (items d) [] Map.empty = (errs, cache)"
    by (cases "validate_stock s (items d) [] Map.empty")
  have "errs = []"
    using assms v0 by (cases errs) (simp_all add: create_order_body_rejected)
  then have v: "validate_stock s (items d) [] Map.empty = ([], cache)" using v0 by simp
  have ok: "\<forall>l\<in>set (items d). \<not> unsatisfiable s l"
    using validated_no_problem [OF v] by blast
  obtain r1 s1 where i1:
    "insert_order (next_outcome sch) (customer_name d) PENDING (user_id u) s = (r1, s1)"
    by (cases "insert_order (next_outcome sch) (customer_name d) PENDING (user_id u) s")
  from assms obtain c cs where r1: "r1 = Some (c # cs)"
    unfolding create_order_body_validated [OF v] i1
    by (cases r1; cases "the r1") auto
  have a1: "next_outcome sch = Applied" using insert_order_data i1 r1 by blast
  obtain its where run: "commit_items cache (ord_id c) (items d) (tl sch) [] s1 = (Inr its, s')"
    and r: "r = \<lparr>resp_id = ord_id c, resp_customer_name = ord_customer_name c,
                  resp_status = ord_status c, resp_items = its,
                  resp_created_by = ord_created_by c\<rparr>"
    using assms unfolding create_order_body_validated [OF v] i1 r1
    by (auto split: prod.splits sum.splits)
  have "create_order_body d u [] s = (Inr r, s')"
    unfolding create_order_body_validated [OF v]
    using i1 r1 a1 commit_items_success_script [OF run] r by simp
  then show ?thesis
    using create_order_body_applied [OF ok, of "[]" u] ok by simp
qed

lemma create_order_success:
  assumes "create_order u d sch s = (Inr r, s')"
  shows "role u = ''salesperson'' \<and> (\<forall>l\<in>set (items d). \<not> unsatisfiable s l)
           \<and> r = confirmation u d s \<and> s' = committed u d s"
proof -
  have sp: "role u = ''salesperson''"
    using assms by (auto simp: create_order_def require_salesperson_def split: if_splits)
  then have "create_order_body d u sch s = (Inr r, s')"
    using assms by (simp add: create_order_def require_salesperson_def)
  then show ?thesis using sp create_order_body_success by blast
qed

lemma create_order_applied:
  assumes "role u = ''salesperson''" and "\<forall>l\<in>set (items d). \<not> unsatisfiable s l"
    and "list_all (\<lambda>oc. oc = Applied) sch"
  shows "create_order u d sch s = (Inr (confirmation u d s), committed u d s)"
  using create_order_body_applied [OF assms(2,3), of u] assms(1)
  by (simp add: create_order_def require_salesperson_def)

section \<open>The written-out run, read back\<close>

lemma map_new_rows:
  "map (\<lambda>r. (oi_order_id r, oi_item_id r, oi_quantity r)) (new_rows n k ls)
     = map (\<lambda>l. (n, item_id l, quantity l)) ls"
  by (induction ls arbitrary: k) simp_all

lemma map_responses:
  "map (\<lambda>i. (ri_item_id i, ri_quantity i)) (responses cache k ls)
     = map (\<lambda>l. (item_id l, quantity l)) ls"
  by (induction ls arbitrary: k) simp_all

lemma line_writes_concat:
  "line_writes cache n ls =
     concat (map (\<lambda>l. [InsertOrderItem n (item_id l) (quantity l),
                        UpdateStock (item_id l) (cached_level cache (item_id l) - quantity l)]) ls)"
  by (induction ls) simp_all

lemma final_row_Nil: "map (final_row cache []) rows = rows"
  by (induction rows) simp_all

lemma stock_writes_map: "stock_writes cache ls rows = map (final_row cache ls) rows"
  by (induction ls arbitrary: rows) (simp_all add: final_row_Nil comp_def)

lemma inv_id_final_row [simp]: "inv_id (final_row cache ls r) = inv_id r"
  by (induction ls arbitrary: r) simp_all

lemma inv_name_final_row [simp]: "inv_name (final_row cache ls r) = inv_name r"
  by (induction ls arbitrary: r) simp_all

lemma stock_level_final_row:
  "stock_level (final_row cache ls r) =
     (case filter (\<lambda>l. item_id l = inv_id r) ls of
        [] \<Rightarrow> stock_level r
      | x # xs \<Rightarrow> cached_level cache (inv_id r) - quantity (last (x # xs)))"
proof (induction ls arbitrary: r)
  case Nil
  then show ?case by simp
next
  case (Cons l ls)
  show ?case
    by (cases "filter (\<lambda>l. item_id l = inv_id r) ls")
       (simp_all add: Cons.IH set_stock_def)
qed

lemma filter_id_map:
  "(\<And>r. inv_id (f r) = inv_id r) \<Longrightarrow>
     filter (\<lambda>r. inv_id r = i) (map f rows) = map f (filter (\<lambda>r. inv_id r = i) rows)"
  by (induction rows) simp_all

lemma read_row_id:
  assumes "read_row s i = Some row"
  shows "inv_id row = i" and "row \<in> set (inventory_items s)"
proof -
  obtain rest where eq: "filter (\<lambda>r. inv_id r = i) (inventory_items s) = row # rest"
    using assms by (auto simp: read_row_def select_inventory_item_def split: list.splits)
  have "row \<in> set (filter (\<lambda>r. inv_id r = i) (inventory_items s))"
    by (simp only: eq list.set_intros(1))
  then show "inv_id row = i" and "row \<in> set (inventory_items s)" by simp_all
qed

lemma read_row_committed:
  "read_row (committed u d s) i = map_option (final_row (read_row s) (items d)) (read_row s i)"
  by (simp add: read_row_def select_inventory_item_def committed_def stock_writes_map
      filter_id_map split: list.splits)

lemma stock_of_committed:
  assumes "l \<in> set (items d)" and "read_row s (item_id l) \<noteq> None"
  shows "stock_of (committed u d s) (item_id l) =
           Some (the (stock_of s (item_id l))
                   - quantity (last (filter (\<lambda>x. item_id x = item_id l) (items d))))"
proof -
  obtain row where row: "read_row s (item_id l) = Some row" using assms(2) by auto
  then have id: "inv_id row = item_id l" by (simp add: read_row_id)
  have "filter (\<lambda>x. item_id x = item_id l) (items d) \<noteq> []"
    using assms(1) by (auto simp: filter_empty_conv)
  then obtain x xs where x: "filter (\<lambda>x. item_id x = item_id l) (items d) = x # xs"
    by (cases "filter (\<lambda>x. item_id x = item_id l) (items d)") auto
  show ?thesis
    by (simp add: stock_of_def read_row_committed row stock_level_final_row id x cached_level_def)
qed

section \<open>Reading a created order back\<close>

lemma select_order_committed:
  assumes "fresh_ids s"
  shows "select_order (committed u d s) (next_id s) = [header u d s]"
proof -
  have "\<forall>r\<in>set (orders s). ord_id r \<noteq> next_id s"
    using assms by (auto simp: fresh_ids_def list_all_iff)
  then have "filter (\<lambda>r. ord_id r = next_id s) (orders s) = []"
    by (simp add: filter_empty_conv)
  then show ?thesis by (simp add: select_order_def committed_def header_def)
qed

lemma filter_new_rows: "filter (\<lambda>r. oi_order_id r = n) (new_rows n k ls) = new_rows n k ls"
  by (induction ls arbitrary: k) simp_all

lemma select_order_items_committed:
  assumes "fresh_ids s"
  shows "select_order_items (committed u d s) (next_id s)
           = new_rows (next_id s) (Suc (next_id s)) (items d)"
proof -
  have "\<forall>r\<in>set (order_items s). oi_order_id r \<noteq> next_id s"
    using assms by (auto simp: fresh_ids_def list_all_iff)
  then have "filter (\<lambda>r. oi_order_id r = next_id s) (order_items s) = []"
    by (simp add: filter_empty_conv)
  then show ?thesis by (simp add: select_order_items_def committed_def filter_new_rows)
qed

lemma order_items_with_names_Cons:
  "order_items_with_names s (r # rs) =
     (case read_row s (oi_item_id r) of
        None \<Rightarrow> None
      | Some it \<Rightarrow>
          (case order_items_with_names s rs of
             None \<Rightarrow> None
           | Some rest \<Rightarrow>
               Some (\<lparr>ri_id = oi_id r, ri_item_id = oi_item_id r, ri_item_name = inv_name it,
                       ri_quantity = oi_quantity r\<rparr> # rest)))"
  by (simp add: read_row_def split: list.splits)

lemma names_committed:
  "\<forall>l\<in>set ls. read_row s (item_id l) \<noteq> None \<Longrightarrow>
     order_items_with_names (committed u d s) (new_rows n k ls) = Some (responses (read_row s) k ls)"
proof (induction ls arbitrary: k)
  case Nil
  then show ?case by simp
next
  case (Cons l ls)
  obtain row where row: "read_row s (item_id l) = Some row" using Cons.prems by auto
  have rest: "\<forall>l\<in>set ls. read_row s (item_id l) \<noteq> None" using Cons.prems by simp
  show ?case
    by (simp add: order_items_with_names_Cons read_row_committed row Cons.IH [OF rest]
        cached_name_def del: order_items_with_names.simps)
qed

lemma read_back:
  assumes "fresh_ids s" and "\<forall>l\<in>set (items d). \<not> unsatisfiable s l"
  shows "get_order_details_body (next_id s) (committed u d s) = Inr (confirmation u d s)"
proof -
  have "\<forall>l\<in>set (items d). read_row s (item_id l) \<noteq> None"
    using satisfiable_read assms(2) by fastforce
  then show ?thesis
    by (simp add: get_order_details_body_def select_order_committed [OF assms(1)]
        select_order_items_committed [OF assms(1)] names_committed
        order_response_def header_def confirmation_def)
qed

lemma names_are_current:
  "order_items_with_names s rows = Some its \<Longrightarrow>
     \<forall>i\<in>set its. map_option inv_name (read_row s (ri_item_id i)) = Some (ri_item_name i)"
proof (induction rows arbitrary: its)
  case Nil
  then show ?case by simp
next
  case (Cons r rs)
  then show ?case
    by (auto simp: order_items_with_names_Cons simp del: order_items_with_names.simps
        split: option.splits)
qed

lemma get_order_details_names:
  assumes "get_order_details v n s = Inr r"
  shows "\<forall>i\<in>set (resp_items r). map_option inv_name (read_row s (ri_item_id i)) = Some (ri_item_name i)"
proof -
  obtain ord rest its where "order_items_with_names s (select_order_items s n) = Some its"
    and "r = order_response ord its"
    using assms
    by (auto simp: get_order_details_def require_authenticated_user_def get_order_details_body_def
        split: list.splits option.splits)
  then show ?thesis using names_are_current by (simp add: order_response_def)
qed

lemma responses_names:
  "\<forall>l\<in>set ls. cache (item_id l) \<noteq> None \<Longrightarrow>
     \<forall>i\<in>set (responses cache k ls). map_option inv_name (cache (ri_item_id i)) = Some (ri_item_name i)"
  by (induction ls arbitrary: k) (auto simp: cached_name_def)

section \<open>Status changes\<close>

text \<open>
  For an order that exists, the handler raises before it issues the update: the answer
  is 500 and the store is left as it was, whatever the target status and whatever the
  store would have answered to the write.
\<close>

lemma update_order_status_body_existing:
  "select_order s n = current_order # others \<Longrightarrow>
     update_order_status_body n st oc s =
       (Inl (HTTPException 500 (Msg ''Internal server error during order status update'')), s)"
  by (simp add: update_order_status_body_def status_update_status_def status_error_def
      internal_error_def)

lemma update_order_status_never_succeeds:
  "fst (update_order_status u n st oc s) \<noteq> Inr r"
  by (cases "select_order s n")
     (simp_all add: update_order_status_def require_warehouse_manager_or_admin_def
        update_order_status_body_def status_update_status_def)

section \<open>The writes issued by an order creation\<close>

lemma journal_insert_order_item:
  "journal (snd (insert_order_item oc n i q s)) = journal s @ [InsertOrderItem n i q]"
  by (simp add: insert_order_item_def issue_def Let_def split: outcome.splits)

lemma journal_update_stock:
  "journal (snd (update_stock oc i v s)) = journal s @ [UpdateStock i v]"
  by (simp add: update_stock_def issue_def Let_def split: outcome.splits)

lemma journal_rollback:
  "journal (snd (rollback sch n m s)) = journal s @ [DeleteOrder n]"
  by (simp add: snd_rollback delete_order_def issue_def Let_def split: outcome.splits)

lemma journal_insert_order:
  "journal (snd (insert_order oc c st u s)) = journal s @ [InsertOrder c st u]"
  by (simp add: insert_order_def issue_def Let_def split: outcome.splits)

lemma commit_items_sound_writes:
  "cache_covers cache ls \<Longrightarrow>
     \<exists>ws. journal (snd (commit_items cache n ls sch acc s)) = journal s @ ws
          \<and> list_all sound_write ws"
proof (induction ls arbitrary: sch acc s)
  case Nil
  then show ?case by simp
next
  case (Cons l ls)
  obtain row where row: "cache (item_id l) = Some row" "quantity l \<le> stock_level row"
    using Cons.prems by (auto simp: cache_covers_def split: option.splits)
  have rest: "cache_covers cache ls" using Cons.prems by (simp add: cache_covers_def)
  let ?v = "stock_level row - quantity l"
  obtain r1 s1 where i1: "insert_order_item (next_outcome sch) n (item_id l) (quantity l) s = (r1, s1)"
    by (cases "insert_order_item (next_outcome sch) n (item_id l) (quantity l) s")
  have j1: "journal s1 = journal s @ [InsertOrderItem n (item_id l) (quantity l)]"
    using journal_insert_order_item [of "next_outcome sch" n "item_id l" "quantity l" s] i1 by simp
  obtain r2 s2 where u2: "update_stock (next_outcome (tl sch)) (item_id l) ?v s1 = (r2, s2)"
    by (cases "update_stock (next_outcome (tl sch)) (item_id l) ?v s1")
  have j2: "journal s2 = journal s @ [InsertOrderItem n (item_id l) (quantity l), UpdateStock (item_id l) ?v]"
    using journal_update_stock [of "next_outcome (tl sch)" "item_id l" ?v s1] u2 j1 by simp
  have k1: "\<exists>ws. journal (snd (rollback sch' n m s1)) = journal s @ ws \<and> list_all sound_write ws"
    for sch' m
    by (simp add: journal_rollback j1)
  have k2: "\<exists>ws. journal (snd (rollback sch' n m s2)) = journal s @ ws \<and> list_all sound_write ws"
    for sch' m
    by (simp add: journal_rollback j2 row(2))
  have k3: "\<exists>ws. journal (snd (commit_items cache n ls sch' acc' s2)) = journal s @ ws
               \<and> list_all sound_write ws" for sch' acc'
  proof -
    obtain ws where "journal (snd (commit_items cache n ls sch' acc' s2)) = journal s2 @ ws"
      and "list_all sound_write ws"
      using Cons.IH [OF rest] by blast
    then show ?thesis by (simp add: j2 row(2))
  qed
  have e1: "\<exists>ws. journal s1 = journal s @ ws \<and> list_all sound_write ws" by (simp add: j1)
  have e2: "\<exists>ws. journal s2 = journal s @ ws \<and> list_all sound_write ws"
    by (simp add: j2 row(2))
  show ?case
    using i1 u2 row(1) k1 k2 k3 e1 e2
    by (simp split: option.splits list.splits)
qed

lemma create_order_body_sound_writes:
  "\<exists>ws. journal (snd (create_order_body d u sch s)) = journal s @ ws \<and> list_all sound_write ws"
proof (cases "validate_stock s (items d) [] Map.empty")
  case (Pair errs cache)
  show ?thesis
  proof (cases errs)
    case Nil
    have v: "validate_stock s (items d) [] Map.empty = ([], cache)" using Pair Nil by simp
    have cov: "cache_covers cache (items d)" using validated_cache_covers [OF v] .
    obtain r1 s1 where i1:
      "insert_order (next_outcome sch) (customer_name d) PENDING (user_id u) s = (r1, s1)"
      by (cases "insert_order (next_outcome sch) (customer_name d) PENDING (user_id u) s")
    have j1: "journal s1 = journal s @ [InsertOrder (customer_name d) PENDING (user_id u)]"
      using journal_insert_order [of "next_outcome sch" "customer_name d" PENDING "user_id u" s] i1
      by simp
    have k: "\<exists>ws. journal (snd (commit_items cache n (items d) sch' acc s1)) = journal s @ ws
               \<and> list_all sound_write ws" for n sch' acc
    proof -
      obtain ws where "journal (snd (commit_items cache n (items d) sch' acc s1)) = journal s1 @ ws"
        and "list_all sound_write ws"
        using commit_items_sound_writes [OF cov] by blast
      then show ?thesis by (simp add: j1)
    qed
    have e1: "\<exists>ws. journal s1 = journal s @ ws \<and> list_all sound_write ws" by (simp add: j1)
    show ?thesis
    proof (cases r1)
      case None
      then show ?thesis using e1 by (simp add: create_order_body_validated [OF v] i1)
    next
      case (Some rows)
      show ?thesis
      proof (cases rows)
        case Nil
        then show ?thesis using e1 Some by (simp add: create_order_body_validated [OF v] i1)
      next
        case (Cons c cs)
        obtain res s2 where run: "commit_items cache (ord_id c) (items d) (tl sch) [] s1 = (res, s2)"
          by (cases "commit_items cache (ord_id c) (items d) (tl sch) [] s1")
        have "snd (create_order_body d u sch s) = s2"
          by (simp add: create_order_body_validated [OF v] i1 Some Cons run split: sum.splits)
        then show ?thesis using k [of "ord_id c" "tl sch" "[]"] run by simp
      qed
    qed
  next
    case (Cons e es)
    then show ?thesis using Pair by (simp add: create_order_body_rejected)
  qed
qed

section \<open>Rollback after an empty result\<close>

text \<open>
  The header and the first \<open>m\<close> writes of the lines are applied, the next write is
  answered with an empty result, and the delete of the header is applied. Then the
  creation answers 500 with the message of the write that failed, the header and the
  lines of the order are gone, the order cannot be read, and the stock updates of the
  lines before the failing one stay as written.
\<close>

lemma rollback_applied:
  "rollback (Applied # rest) n m s =
     (Inl (HTTPException 500 (Msg m)),
      s\<lparr>journal := journal s @ [DeleteOrder n],
        orders := filter (\<lambda>r. ord_id r \<noteq> n) (orders s),
        order_items := filter (\<lambda>r. oi_order_id r \<noteq> n) (order_items s)\<rparr>)"
  by (simp add: rollback_def delete_order_def issue_def next_outcome_def Let_def)

lemma filter_out_new_rows: "filter (\<lambda>r. oi_order_id r \<noteq> n) (new_rows n k ls) = []"
  by (induction ls arbitrary: k) simp_all

lemma commit_items_empty_result:
  assumes "\<forall>l\<in>set ls. cache (item_id l) \<noteq> None"
    and "\<forall>l\<in>set ls. item_id l \<in> inv_id ` set (inventory_items s)"
    and "m < 2 * length ls"
  shows "commit_items cache n ls (replicate m Applied @ NoData # Applied # rest) acc s =
           (Inl (HTTPException 500 (Msg (if even m then ''Failed to create order items''
                                         else ''Failed to update inventory stock levels''))),
            s\<lparr>inventory_items := stock_writes cache (take (m div 2) ls) (inventory_items s),
              orders := filter (\<lambda>r. ord_id r \<noteq> n) (orders s),
              order_items := filter (\<lambda>r. oi_order_id r \<noteq> n) (order_items s),
              next_id := next_id s + (m + 1) div 2,
              journal := journal s @ take (m + 1) (line_writes cache n ls) @ [DeleteOrder n]\<rparr>)"
  using assms
proof (induction ls arbitrary: m acc s)
  case Nil
  then show ?case by simp
next
  case (Cons l ls)
  obtain row where row: "cache (item_id l) = Some row" using Cons.prems(1) by auto
  let ?v = "stock_level row - quantity l"
  let ?r = "\<lparr>oi_id = next_id s, oi_order_id = n, oi_item_id = item_id l, oi_quantity = quantity l\<rparr>"
  let ?s1 = "s\<lparr>journal := journal s @ [InsertOrderItem n (item_id l) (quantity l)],
               order_items := order_items s @ [?r], next_id := Suc (next_id s)\<rparr>"
  let ?s2 = "?s1\<lparr>journal := journal ?s1 @ [UpdateStock (item_id l) ?v],
                 inventory_items := map (set_stock (item_id l) ?v) (inventory_items s)\<rparr>"
  let ?hit = "filter (\<lambda>r. inv_id r = item_id l) (map (set_stock (item_id l) ?v) (inventory_items s))"
  have i1: "insert_order_item Applied n (item_id l) (quantity l) s = (Some [?r], ?s1)"
    by (simp add: insert_order_item_def issue_def Let_def)
  have lv: "cached_level cache (item_id l) = stock_level row" by (simp add: cached_level_def row)
  show ?case
  proof (cases m)
    case 0
    have i0: "insert_order_item NoData n (item_id l) (quantity l) s
                = (Some [], issue (InsertOrderItem n (item_id l) (quantity l)) s)"
      by (simp add: insert_order_item_def Let_def)
    show ?thesis
      by (simp add: 0 next_outcome_def i0 rollback_applied issue_def)
  next
    case (Suc m1)
    show ?thesis
    proof (cases m1)
      case 0
      have u0: "update_stock NoData (item_id l) ?v ?s1
                  = (Some [], issue (UpdateStock (item_id l) ?v) ?s1)"
        by (simp add: update_stock_def Let_def)
      show ?thesis
        by (simp add: Suc 0 next_outcome_def i1 row u0 rollback_applied issue_def lv)
    next
      case (Suc m2)
      have "item_id l \<in> inv_id ` set (inventory_items s)" using Cons.prems(2) by simp
      then have "?hit \<noteq> []" by (auto simp: filter_empty_conv)
      then obtain x xs where x: "?hit = x # xs" by (cases ?hit) auto
      have u2: "update_stock Applied (item_id l) ?v ?s1 = (Some (x # xs), ?s2)"
        using x by (simp add: update_stock_def issue_def Let_def)
      have p1: "\<forall>l\<in>set ls. cache (item_id l) \<noteq> None" using Cons.prems(1) by simp
      have p2: "\<forall>l\<in>set ls. item_id l \<in> inv_id ` set (inventory_items ?s2)"
        using Cons.prems(2) by (simp add: image_image)
      have p3: "m2 < 2 * length ls" using Cons.prems(3) \<open>m = Suc m1\<close> Suc by simp
      have step: "commit_items cache n (l # ls)
                    (replicate m Applied @ NoData # Applied # rest) acc s =
          commit_items cache n ls (replicate m2 Applied @ NoData # Applied # rest)
            (acc @ [\<lparr>ri_id = next_id s, ri_item_id = item_id l, ri_item_name = inv_name row,
                      ri_quantity = quantity l\<rparr>]) ?s2"
        by (simp add: \<open>m = Suc m1\<close> Suc next_outcome_def i1 row u2)
      show ?thesis
        unfolding step Cons.IH [OF p1 p2 p3]
        by (simp add: \<open>m = Suc m1\<close> Suc lv)
    qed
  qed
qed


lemma create_order_compensates:
  assumes fresh: "fresh_ids s" and sp: "role u = ''salesperson''"
    and ok: "\<forall>l\<in>set (items d). \<not> unsatisfiable s l"
    and m: "m < 2 * length (items d)"
  shows "\<exists>s'. create_order u d (Applied # replicate m Applied @ NoData # Applied # rest) s =
           (Inl (HTTPException 500 (Msg (if even m then ''Failed to create order items''
                                         else ''Failed to update inventory stock levels''))), s')
     \<and> orders s' = orders s
     \<and> order_items s' = order_items s
     \<and> inventory_items s' = stock_writes (read_row s) (take (m div 2) (items d)) (inventory_items s)
     \<and> get_order_details v (next_id s) s' = Inl (HTTPException 404 (Msg ''Order not found''))"
proof -
  let ?sch = "Applied # replicate m Applied @ NoData # Applied # rest"
  obtain cache where v: "validate_stock s (items d) [] Map.empty = ([], cache)"
    and c: "\<forall>l\<in>set (items d). cache (item_id l) = read_row s (item_id l)"
    using validate_stock_passes [OF ok] by blast
  let ?s1 = "s\<lparr>journal := journal s @ [InsertOrder (customer_name d) PENDING (user_id u)],
               orders := orders s @ [header u d s], next_id := Suc (next_id s)\<rparr>"
  have i1: "insert_order (next_outcome ?sch) (customer_name d) PENDING (user_id u) s
              = (Some [header u d s], ?s1)"
    by (simp add: next_outcome_def insert_order_def issue_def Let_def header_def)
  have p1: "\<forall>l\<in>set (items d). cache (item_id l) \<noteq> None"
    using c satisfiable_read ok by fastforce
  have p2: "\<forall>l\<in>set (items d). item_id l \<in> inv_id ` set (inventory_items ?s1)"
    using satisfiable_read ok by fastforce
  let ?s' = "?s1\<lparr>inventory_items := stock_writes cache (take (m div 2) (items d)) (inventory_items ?s1),
              orders := filter (\<lambda>r. ord_id r \<noteq> ord_id (header u d s)) (orders ?s1),
              order_items := filter (\<lambda>r. oi_order_id r \<noteq> ord_id (header u d s)) (order_items ?s1),
              next_id := next_id ?s1 + (m + 1) div 2,
              journal := journal ?s1 @ take (m + 1) (line_writes cache (ord_id (header u d s)) (items d))
                           @ [DeleteOrder (ord_id (header u d s))]\<rparr>"
  have run: "commit_items cache (ord_id (header u d s)) (items d) (tl ?sch) [] ?s1 =
           (Inl (HTTPException 500 (Msg (if even m then ''Failed to create order items''
                                         else ''Failed to update inventory stock levels''))), ?s')"
    using commit_items_empty_result [OF p1 p2 m, of "ord_id (header u d s)" rest "[]"] by simp
  have body: "create_order_body d u ?sch s =
           (Inl (HTTPException 500 (Msg (if even m then ''Failed to create order items''
                                         else ''Failed to update inventory stock levels''))), ?s')"
    unfolding create_order_body_validated [OF v] i1
    by (simp only: prod.case option.case list.case sum.case run)
  have old_orders: "filter (\<lambda>r. ord_id r \<noteq> next_id s) (orders s) = orders s"
    using fresh by (auto simp: fresh_ids_def list_all_iff filter_id_conv)
  have old_items: "filter (\<lambda>r. oi_order_id r \<noteq> next_id s) (order_items s) = order_items s"
    using fresh by (auto simp: fresh_ids_def list_all_iff filter_id_conv)
  have a: "orders ?s' = orders s" by (simp add: header_def old_orders)
  have b: "order_items ?s' = order_items s" by (simp add: header_def old_items)
  have e: "inventory_items ?s' = stock_writes (read_row s) (take (m div 2) (items d)) (inventory_items s)"
  proof -
    have "\<forall>l\<in>set (take (m div 2) (items d)). cache (item_id l) = read_row s (item_id l)"
      using c by (auto dest: in_set_takeD)
    then show ?thesis by (simp add: stock_writes_cong)
  qed
  have "select_order ?s' (next_id s) = []"
    using fresh a by (auto simp: select_order_def fresh_ids_def list_all_iff filter_empty_conv)
  then have g: "get_order_details v (next_id s) ?s' = Inl (HTTPException 404 (Msg ''Order not found''))"
    by (simp add: get_order_details_def require_authenticated_user_def get_order_details_body_def)
  have "create_order u d ?sch s =
           (Inl (HTTPException 500 (Msg (if even m then ''Failed to create order items''
                                         else ''Failed to update inventory stock levels''))), ?s')"
    using body sp by (simp add: create_order_def require_salesperson_def)
  then show ?thesis using a b e g by blast
qed

section \<open>Evaluation of the example data\<close>

lemma select_shop [simp]:
  "select_inventory_item shop ''A'' = [item_A]"
  "select_inventory_item shop ''B'' = [item_B]"
  "select_inventory_item only_A ''A'' = [item_A]"
  "select_inventory_item only_A ''B'' = []"
  by (simp_all add: select_inventory_item_def shop_def only_A_def item_A_def item_B_def)

lemma example_rows [simp]:
  "stock_level item_A = 5" "stock_level item_B = 2"
  "inv_name item_A = ''Birch 18mm''" "inv_name item_B = ''Marine 12mm''"
  "inv_id item_A = ''A''" "inv_id item_B = ''B''"
  by (simp_all add: item_A_def item_B_def)

lemma example_requests [simp]:
  "items (request ls) = ls" "customer_name (request ls) = ''Acme Joinery''"
  "item_id (line i q) = i" "quantity (line i q) = q"
  by (simp_all add: request_def line_def)

lemma example_users [simp]:
  "role seller = ''salesperson''" "role manager = ''warehouse_manager''" "role admin = ''admin''"
  "user_id seller = ''u-sales''"
  by (simp_all add: seller_def manager_def admin_def)

lemmas store_defs = insert_order_def insert_order_item_def update_stock_def delete_order_def
  update_status_def update_item_def apply_update_def issue_def next_outcome_def rollback_def set_stock_def set_status_def
  select_inventory_item_def select_order_def select_order_items_def

lemmas example_defs = shop_def only_A_def item_A_def item_B_def seller_def manager_def admin_def
  request_def line_def

lemma create_order_example:
  "create_order seller (request [line ''A'' 3, line ''B'' 1]) [] shop = (Inr placed, shop_after)"
  by (simp add: create_order_def require_salesperson_def create_order_body_def store_defs Let_def
      example_defs placed_def shop_after_def)

lemma cached_level_read:
  "read_row s i \<noteq> None \<Longrightarrow> cached_level (read_row s) i = the (stock_of s i)"
  by (auto simp: cached_level_def stock_of_def)

lemma journal_committed:
  assumes "\<forall>l\<in>set (items d). \<not> unsatisfiable s l"
  shows "journal (committed u d s) =
           journal s @ InsertOrder (customer_name d) PENDING (user_id u)
             # concat (map (\<lambda>l. [InsertOrderItem (next_id s) (item_id l) (quantity l),
                                  UpdateStock (item_id l)
                                    (the (stock_of s (item_id l)) - quantity l)]) (items d))"
proof -
  have "cached_level (read_row s) (item_id l) = the (stock_of s (item_id l))"
    if "l \<in> set (items d)" for l
    using satisfiable_read assms that cached_level_read [of s "item_id l"] by fastforce
  then show ?thesis
    by (simp add: committed_def line_writes_concat cong: map_cong)
qed

lemma filter_distinct_key:
  "distinct (map f xs) \<Longrightarrow> x \<in> set xs \<Longrightarrow> filter (\<lambda>y. f y = f x) xs = [x]"
proof (induction xs)
  case Nil
  then show ?case by simp
next
  case (Cons a xs)
  show ?case
  proof (cases "a = x")
    case True
    have "f x \<notin> f ` set xs" using Cons.prems(1) True by simp
    then have "\<forall>y\<in>set xs. f y \<noteq> f x" by (metis imageI)
    then have "filter (\<lambda>y. f y = f x) xs = []" by (simp add: filter_empty_conv)
    then show ?thesis using True by simp
  next
    case False
    then have "x \<in> set xs" using Cons.prems(2) by simp
    moreover have "f a \<noteq> f x" using Cons.prems(1) \<open>x \<in> set xs\<close> by force
    ultimately show ?thesis using Cons by simp
  qed
qed

lemma validate_stock_verdict:
  "fst (validate_stock s ls [] Map.empty) = [] \<longleftrightarrow> (\<forall>l\<in>set ls. \<not> unsatisfiable s l)"
  by (simp add: validate_stock_errors filter_empty_conv)

lemma shop_sold_eval:
  "create_order seller (request [line ''A'' 3]) [] shop =
     (Inr placed_A,
      \<lparr>inventory_items = [item_A\<lparr>stock_level := 2\<rparr>, item_B],
       orders = [\<lparr>ord_id = 0, ord_customer_name = ''Acme Joinery'', ord_status = PENDING,
                  ord_created_by = ''u-sales''\<rparr>],
       order_items = [\<lparr>oi_id = 1, oi_order_id = 0, oi_item_id = ''A'', oi_quantity = 3\<rparr>],
       next_id = 2,
       journal = [InsertOrder ''Acme Joinery'' PENDING ''u-sales'',
                  InsertOrderItem 0 ''A'' 3, UpdateStock ''A'' 2]\<rparr>)"
  by (simp add: create_order_def require_salesperson_def create_order_body_def store_defs Let_def
      example_defs placed_A_def)

lemma shop_sold_store:
  "shop_sold =
      \<lparr>inventory_items = [item_A\<lparr>stock_level := 2\<rparr>, item_B],
       orders = [\<lparr>ord_id = 0, ord_customer_name = ''Acme Joinery'', ord_status = PENDING,
                  ord_created_by = ''u-sales''\<rparr>],
       order_items = [\<lparr>oi_id = 1, oi_order_id = 0, oi_item_id = ''A'', oi_quantity = 3\<rparr>],
       next_id = 2,
       journal = [InsertOrder ''Acme Joinery'' PENDING ''u-sales'',
                  InsertOrderItem 0 ''A'' 3, UpdateStock ''A'' 2]\<rparr>"
  by (simp add: shop_sold_def shop_sold_eval)

lemma rename_eval:
  "update_inventory_item manager ''A'' rename_A Applied shop_sold
       = (Inr \<lparr>ir_id = ''A'', ir_name = ''Oak 18mm'', ir_description = None,
               ir_stock_level = 2, ir_low_stock_threshold = 1\<rparr>,
          \<lparr>inventory_items = [item_A\<lparr>stock_level := 2, inv_name := ''Oak 18mm''\<rparr>, item_B],
           orders = [\<lparr>ord_id = 0, ord_customer_name = ''Acme Joinery'', ord_status = PENDING,
                      ord_created_by = ''u-sales''\<rparr>],
           order_items = [\<lparr>oi_id = 1, oi_order_id = 0, oi_item_id = ''A'', oi_quantity = 3\<rparr>],
           next_id = 2,
           journal = [InsertOrder ''Acme Joinery'' PENDING ''u-sales'',
                      InsertOrderItem 0 ''A'' 3, UpdateStock ''A'' 2, UpdateItem ''A'' rename_A]\<rparr>)"
  by (simp add: shop_sold_store update_inventory_item_def require_warehouse_manager_or_admin_def
      update_inventory_item_body_def name_taken_def no_fields_def item_response_def
      store_defs Let_def item_A_def item_B_def manager_def rename_A_def)

lemma shop_renamed_store:
  "shop_renamed =
          \<lparr>inventory_items = [item_A\<lparr>stock_level := 2, inv_name := ''Oak 18mm''\<rparr>, item_B],
           orders = [\<lparr>ord_id = 0, ord_customer_name = ''Acme Joinery'', ord_status = PENDING,
                      ord_created_by = ''u-sales''\<rparr>],
           order_items = [\<lparr>oi_id = 1, oi_order_id = 0, oi_item_id = ''A'', oi_quantity = 3\<rparr>],
           next_id = 2,
           journal = [InsertOrder ''Acme Joinery'' PENDING ''u-sales'',
                      InsertOrderItem 0 ''A'' 3, UpdateStock ''A'' 2, UpdateItem ''A'' rename_A]\<rparr>"
  by (simp add: shop_renamed_def rename_eval)

lemma read_renamed:
  "get_order_details u 0 shop_renamed
       = Inr (placed_A\<lparr>resp_items :=
                [\<lparr>ri_id = 1, ri_item_id = ''A'', ri_item_name = ''Oak 18mm'', ri_quantity = 3\<rparr>]\<rparr>)"
  by (simp add: shop_renamed_store get_order_details_def require_authenticated_user_def
      get_order_details_body_def order_response_def select_order_def select_order_items_def
      select_inventory_item_def item_A_def item_B_def placed_A_def)

lemma twice_eval:
  "create_order seller (request [line ''A'' 3, line ''A'' 3]) [] shop = (Inr placed_twice, shop_twice)"
  by (simp add: create_order_def require_salesperson_def create_order_body_def store_defs Let_def
      example_defs placed_twice_def shop_twice_def)

lemma midway_eval:
  "commit_items [''A'' \<mapsto> item_A] 0 [line ''A'' 3] [] [hd (resp_items placed_twice)] shop_midway
     = (Inr (resp_items placed_twice), shop_twice)"
  by (simp add: store_defs Let_def example_defs placed_twice_def shop_twice_def shop_midway_def)

lemma torn_eval:
  "create_order seller (request [line ''A'' 3, line ''B'' 1])
     [Applied, Applied, Applied, Applied, Raised] shop = (Inl creation_error, shop_torn)"
  by (simp add: create_order_def require_salesperson_def create_order_body_def store_defs Let_def
      example_defs shop_torn_def)

lemma torn_read: "get_order_details u 0 shop_torn = Inr placed"
  by (simp add: get_order_details_def require_authenticated_user_def
      get_order_details_body_def order_response_def select_order_def select_order_items_def
      select_inventory_item_def item_A_def item_B_def placed_def shop_torn_def)


section \<open>The claims\<close>

text \<open>
  C1. Whatever the outcomes of the writes, an order creation leaves every stored stock
  level non-negative when they all were non-negative before. A request with a line whose
  quantity exceeds the stock level of its item is rejected as a whole (for a salesperson
  with the insufficient-stock rejection), and the store is left as it was.
\<close>

theorem C1_stock_never_negative:
  "(stock_nonneg s \<longrightarrow> stock_nonneg (snd (create_order u d sch s)))
   \<and> ((\<exists>l\<in>set (items d). \<exists>row rest. select_inventory_item s (item_id l) = row # rest
          \<and> stock_level row < quantity l) \<longrightarrow>
        (\<exists>e. fst (create_order u d sch s) = Inl e
           \<and> (role u = ''salesperson'' \<longrightarrow> (\<exists>errs. e = HTTPException 400 (InsufficientStock errs))))
        \<and> snd (create_order u d sch s) = s)"
proof -
  have a: "stock_nonneg (snd (create_order u d sch s))" if "stock_nonneg s"
    using that create_order_body_nonneg [of s d u sch]
    by (simp add: create_order_def require_salesperson_def)
  have b: "(\<exists>e. fst (create_order u d sch s) = Inl e
           \<and> (role u = ''salesperson'' \<longrightarrow> (\<exists>errs. e = HTTPException 400 (InsufficientStock errs))))
        \<and> snd (create_order u d sch s) = s"
    if "\<exists>l\<in>set (items d). \<exists>row rest. select_inventory_item s (item_id l) = row # rest
          \<and> stock_level row < quantity l"
  proof -
    from that obtain l where l: "l \<in> set (items d)" "unsatisfiable s l"
      by (auto simp: unsatisfiable_def)
    show ?thesis
      using create_order_body_rejects [OF l, of u sch]
      by (simp add: create_order_def require_salesperson_def)
  qed
  show ?thesis using a b by blast
qed

theorem C1_stock_never_negative_witness:
  "stock_nonneg shop
   \<and> stock_nonneg (snd (create_order seller (request [line ''A'' 3, line ''B'' 9]) [] shop))
   \<and> select_inventory_item shop ''B'' = [item_B] \<and> stock_level item_B < 9
   \<and> (\<exists>errs. fst (create_order seller (request [line ''A'' 3, line ''B'' 9]) [] shop)
                = Inl (HTTPException 400 (InsufficientStock errs)))
   \<and> snd (create_order seller (request [line ''A'' 3, line ''B'' 9]) [] shop) = shop"
proof -
  have h1: "stock_nonneg shop"
    by (simp add: stock_nonneg_def shop_def)
  have h2: "\<exists>l\<in>set (items (request [line ''A'' 3, line ''B'' 9])).
              \<exists>row rest. select_inventory_item shop (item_id l) = row # rest
                \<and> stock_level row < quantity l"
    by simp
  show ?thesis
    using C1_stock_never_negative [of shop seller "request [line ''A'' 3, line ''B'' 9]" "[]"] h1 h2
    by auto
qed

text \<open>
  C2. When a salesperson's request has an unsatisfiable line, order creation answers
  with the insufficient-stock rejection before any write is issued: the store, journal
  included, is the one it started from. The detail list holds, in request order, the
  entry of every unsatisfiable line and nothing else, so it has as many entries as the
  request has unsatisfiable lines.
\<close>

theorem C2_aggregated_rejection:
  assumes "role u = ''salesperson''" and "l \<in> set (items d)" and "unsatisfiable s l"
  shows "\<exists>errs. create_order u d sch s = (Inl (HTTPException 400 (InsufficientStock errs)), s)
           \<and> errs = map (problem_of s) (filter (unsatisfiable s) (items d))
           \<and> length errs = length (filter (unsatisfiable s) (items d))"
  using create_order_body_rejects [OF assms(2,3), of u sch] assms(1)
  by (simp add: create_order_def require_salesperson_def)

theorem C2_aggregated_rejection_witness:
  "role seller = ''salesperson'' \<and> unsatisfiable only_A (line ''B'' 10)
   \<and> \<not> unsatisfiable only_A (line ''A'' 3)
   \<and> create_order seller (request [line ''A'' 3, line ''B'' 10]) [] only_A
       = (Inl (HTTPException 400 (InsufficientStock [ItemNotFound ''B''])), only_A)
   \<and> stock_of only_A ''A'' = Some 5"
proof -
  have h: "unsatisfiable only_A (line ''B'' 10)" "\<not> unsatisfiable only_A (line ''A'' 3)"
    by (simp_all add: unsatisfiable_def)
  have m: "line ''B'' 10 \<in> set (items (request [line ''A'' 3, line ''B'' 10]))"
    by simp
  have p: "problem_of only_A (line ''B'' 10) = ItemNotFound ''B''"
    by (simp add: problem_of_def)
  show ?thesis
    using C2_aggregated_rejection [OF _ m h(1), of seller "[]"] h p
    by (simp add: stock_of_def read_row_def)
qed

text \<open>
  C3. The claim: when the insert or the stock update of a line fails during the commit,
  the order header is deleted, the creation answers a persistence error, the order
  cannot be read afterwards and the stock updates of the earlier lines stay. The code
  does this when the write is answered with an empty result and the delete is applied
  (\<open>create_order_compensates\<close>), but not when the write fails by an exception of the
  client. Items A (stock 5) and B (stock 2), a request for three of A and one of B; the
  header, the first line and its stock update and the second line are written, and the
  client raises on the stock update of the second line. The handler answers 500 from its
  last \<^verbatim>\<open>except\<close> clause and issues no delete: the order stays in the store and is
  read back with both lines, while the stock of B was not reduced.
\<close>

theorem C3_exception_not_compensated:
  "create_order seller (request [line ''A'' 3, line ''B'' 1])
     [Applied, Applied, Applied, Applied, Raised] shop
     = (Inl (HTTPException 500 (Msg ''Internal server error during order creation'')), shop_torn)
   \<and> DeleteOrder 0 \<notin> set (journal shop_torn)
   \<and> get_order_details seller 0 shop_torn = Inr placed
   \<and> stock_of shop_torn ''A'' = Some 2
   \<and> stock_of shop_torn ''B'' = Some 2"
  by (simp add: torn_eval torn_read creation_error_def internal_error_def)
     (simp add: shop_torn_def stock_of_def read_row_def select_inventory_item_def
        item_A_def item_B_def)

text \<open>
  C4. When a salesperson's request passes the validation and every write is applied,
  order creation succeeds with an order in status pending that lists the lines of the
  request in request order. The header row is appended to the orders table, the rows of
  the lines to the order items table in request order, and the journal shows the writes
  in the order of issue: the insert of the header first, then for each line of the
  request, in request order, the insert of the line followed at once by the update of
  the stock of its item to the level read minus the quantity. When no item occurs twice,
  every item of the request ends with its former level minus the quantity of its line.
\<close>

theorem C4_commit_in_request_order:
  assumes "role u = ''salesperson''"
    and "\<forall>l\<in>set (items d). \<not> unsatisfiable s l"
    and "list_all (\<lambda>oc. oc = Applied) sch"
  shows "\<exists>r s'. create_order u d sch s = (Inr r, s')
     \<and> resp_status r = PENDING
     \<and> map (\<lambda>i. (ri_item_id i, ri_quantity i)) (resp_items r)
         = map (\<lambda>l. (item_id l, quantity l)) (items d)
     \<and> orders s' = orders s @ [\<lparr>ord_id = next_id s, ord_customer_name = customer_name d,
                                  ord_status = PENDING, ord_created_by = user_id u\<rparr>]
     \<and> (\<exists>rows. order_items s' = order_items s @ rows
           \<and> map (\<lambda>r. (oi_order_id r, oi_item_id r, oi_quantity r)) rows
               = map (\<lambda>l. (next_id s, item_id l, quantity l)) (items d))
     \<and> journal s' =
         journal s @ InsertOrder (customer_name d) PENDING (user_id u)
           # concat (map (\<lambda>l. [InsertOrderItem (next_id s) (item_id l) (quantity l),
                                UpdateStock (item_id l)
                                  (the (stock_of s (item_id l)) - quantity l)]) (items d))
     \<and> (distinct (map item_id (items d)) \<longrightarrow>
          (\<forall>l\<in>set (items d).
             stock_of s' (item_id l) = Some (the (stock_of s (item_id l)) - quantity l)))"
proof -
  have run: "create_order u d sch s = (Inr (confirmation u d s), committed u d s)"
    using create_order_applied [OF assms] .
  have a: "resp_status (confirmation u d s) = PENDING"
    by (simp add: confirmation_def)
  have b: "map (\<lambda>i. (ri_item_id i, ri_quantity i)) (resp_items (confirmation u d s))
             = map (\<lambda>l. (item_id l, quantity l)) (items d)"
    by (simp add: confirmation_def map_responses)
  have c: "orders (committed u d s) =
             orders s @ [\<lparr>ord_id = next_id s, ord_customer_name = customer_name d,
                          ord_status = PENDING, ord_created_by = user_id u\<rparr>]"
    by (simp add: committed_def header_def)
  have e: "\<exists>rows. order_items (committed u d s) = order_items s @ rows
           \<and> map (\<lambda>r. (oi_order_id r, oi_item_id r, oi_quantity r)) rows
               = map (\<lambda>l. (next_id s, item_id l, quantity l)) (items d)"
    using map_new_rows [of "next_id s" "Suc (next_id s)" "items d"]
    by (simp add: committed_def)
  have f: "stock_of (committed u d s) (item_id l) = Some (the (stock_of s (item_id l)) - quantity l)"
    if "distinct (map item_id (items d))" and "l \<in> set (items d)" for l
  proof -
    have "read_row s (item_id l) \<noteq> None"
      using satisfiable_read assms(2) that(2) by fastforce
    then show ?thesis
      using stock_of_committed [OF that(2), of s u] filter_distinct_key [OF that] by simp
  qed
  show ?thesis
    using run a b c e journal_committed [OF assms(2), of u] f by blast
qed

theorem C4_commit_in_request_order_witness:
  "role seller = ''salesperson''
   \<and> \<not> unsatisfiable shop (line ''A'' 3) \<and> \<not> unsatisfiable shop (line ''B'' 1)
   \<and> create_order seller (request [line ''A'' 3, line ''B'' 1]) [] shop = (Inr placed, shop_after)
   \<and> resp_status placed = PENDING
   \<and> stock_of shop_after ''A'' = Some 2 \<and> stock_of shop_after ''B'' = Some 1"
proof -
  have h1: "role seller = ''salesperson''" by simp
  have h2: "\<forall>l\<in>set (items (request [line ''A'' 3, line ''B'' 1])). \<not> unsatisfiable shop l"
    by (simp add: unsatisfiable_def)
  have h3: "list_all (\<lambda>oc. oc = Applied) []" by simp
  have d: "distinct (map item_id (items (request [line ''A'' 3, line ''B'' 1])))" by simp
  have s: "stock_of shop ''A'' = Some 5" "stock_of shop ''B'' = Some 2"
    by (simp_all add: stock_of_def read_row_def)
  from C4_commit_in_request_order [OF h1 h2 h3] d
  have "resp_status placed = PENDING
        \<and> stock_of shop_after ''A'' = Some 2 \<and> stock_of shop_after ''B'' = Some 1"
    by (simp add: create_order_example s)
  then show ?thesis
    using h2 by (simp add: create_order_example)
qed

text \<open>
  C5, as the code has it. Let an order be created in a store that hands out fresh
  identifiers. Reading it back at once returns the order that the creation returned: its
  lines are those of the request, in request order and with the quantities submitted,
  and each line carries the name the inventory item had when the order was created. No
  name is stored with the line: whenever an order is read, each line carries the name
  that the inventory item has in the store at the time of the read.
\<close>

theorem C5_read_back:
  assumes "fresh_ids s" and "create_order u d sch s = (Inr r, s')"
  shows "get_order_details v (resp_id r) s' = Inr r
     \<and> map (\<lambda>i. (ri_item_id i, ri_quantity i)) (resp_items r)
         = map (\<lambda>l. (item_id l, quantity l)) (items d)
     \<and> (\<forall>i\<in>set (resp_items r).
           map_option inv_name (read_row s (ri_item_id i)) = Some (ri_item_name i))
     \<and> (\<forall>n s2 r2. get_order_details v n s2 = Inr r2 \<longrightarrow>
           (\<forall>i\<in>set (resp_items r2).
              map_option inv_name (read_row s2 (ri_item_id i)) = Some (ri_item_name i)))"
proof -
  have ok: "\<forall>l\<in>set (items d). \<not> unsatisfiable s l"
    and r: "r = confirmation u d s" and s': "s' = committed u d s"
    using create_order_success [OF assms(2)] by simp_all
  have found: "\<forall>l\<in>set (items d). read_row s (item_id l) \<noteq> None"
    using satisfiable_read ok by fastforce
  have a: "get_order_details v (resp_id r) s' = Inr r"
    using read_back [OF assms(1) ok, of u]
    by (simp add: r s' get_order_details_def require_authenticated_user_def confirmation_def)
  have b: "map (\<lambda>i. (ri_item_id i, ri_quantity i)) (resp_items r)
         = map (\<lambda>l. (item_id l, quantity l)) (items d)"
    by (simp add: r confirmation_def map_responses)
  have c: "\<forall>i\<in>set (resp_items r).
           map_option inv_name (read_row s (ri_item_id i)) = Some (ri_item_name i)"
    using responses_names [OF found] by (simp add: r confirmation_def)
  show ?thesis using a b c get_order_details_names by blast
qed

theorem C5_read_back_witness:
  "fresh_ids shop
   \<and> create_order seller (request [line ''A'' 3]) [] shop = (Inr placed_A, shop_sold)
   \<and> get_order_details manager (resp_id placed_A) shop_sold = Inr placed_A
   \<and> map (\<lambda>i. (ri_item_id i, ri_quantity i)) (resp_items placed_A) = [(''A'', 3)]
   \<and> map_option inv_name (read_row shop ''A'') = Some ''Birch 18mm''
   \<and> get_order_details manager 0 shop_renamed
       = Inr (placed_A\<lparr>resp_items :=
                [\<lparr>ri_id = 1, ri_item_id = ''A'', ri_item_name = ''Oak 18mm'', ri_quantity = 3\<rparr>]\<rparr>)
   \<and> map_option inv_name (read_row shop_renamed ''A'') = Some ''Oak 18mm''"
proof -
  have h1: "fresh_ids shop" by (simp add: fresh_ids_def shop_def)
  have h2: "create_order seller (request [line ''A'' 3]) [] shop = (Inr placed_A, shop_sold)"
    by (simp add: shop_sold_def shop_sold_eval)
  have i: "resp_items placed_A
             = [\<lparr>ri_id = 1, ri_item_id = ''A'', ri_item_name = ''Birch 18mm'', ri_quantity = 3\<rparr>]"
    by (simp add: placed_A_def)
  note read = C5_read_back [OF h1 h2, of manager]
  have a: "get_order_details manager (resp_id placed_A) shop_sold = Inr placed_A"
    and b: "map_option inv_name (read_row shop ''A'') = Some ''Birch 18mm''"
    using read by (simp_all add: i)
  have "\<forall>i\<in>set (resp_items (placed_A\<lparr>resp_items :=
                [\<lparr>ri_id = 1, ri_item_id = ''A'', ri_item_name = ''Oak 18mm'', ri_quantity = 3\<rparr>]\<rparr>)).
           map_option inv_name (read_row shop_renamed (ri_item_id i)) = Some (ri_item_name i)"
    using read read_renamed [of manager] by blast
  then have c: "map_option inv_name (read_row shop_renamed ''A'') = Some ''Oak 18mm''"
    by simp
  show ?thesis
    using a b c h1 h2 read_renamed [of manager] by (simp add: i)
qed

text \<open>
  C5, as the specification states it, fails: item A is renamed after the order was
  created, and the order read back carries the new name, not the name at creation time.
\<close>

theorem C5_snapshot_counterexample:
  "create_order seller (request [line ''A'' 3]) [] shop = (Inr placed_A, shop_sold)
   \<and> map ri_item_name (resp_items placed_A) = [''Birch 18mm'']
   \<and> update_inventory_item manager ''A'' rename_A Applied shop_sold
       = (Inr \<lparr>ir_id = ''A'', ir_name = ''Oak 18mm'', ir_description = None,
               ir_stock_level = 2, ir_low_stock_threshold = 1\<rparr>, shop_renamed)
   \<and> get_order_details seller 0 shop_renamed
       = Inr (placed_A\<lparr>resp_items :=
                [\<lparr>ri_id = 1, ri_item_id = ''A'', ri_item_name = ''Oak 18mm'', ri_quantity = 3\<rparr>]\<rparr>)
   \<and> get_order_details seller 0 shop_renamed \<noteq> Inr placed_A"
proof -
  have a: "create_order seller (request [line ''A'' 3]) [] shop = (Inr placed_A, shop_sold)"
    by (simp add: shop_sold_def shop_sold_eval)
  have b: "map ri_item_name (resp_items placed_A) = [''Birch 18mm'']"
    by (simp add: placed_A_def)
  have u: "update_inventory_item manager ''A'' rename_A Applied shop_sold
       = (Inr \<lparr>ir_id = ''A'', ir_name = ''Oak 18mm'', ir_description = None,
               ir_stock_level = 2, ir_low_stock_threshold = 1\<rparr>, shop_renamed)"
    by (simp add: rename_eval shop_renamed_store)
  have n: "get_order_details seller 0 shop_renamed \<noteq> Inr placed_A"
    by (simp add: read_renamed placed_A_def)
  show ?thesis using a b u n read_renamed [of seller] by simp
qed

text \<open>
  C6, as the code has it. Whatever the outcomes of the writes, every stock update that
  an order creation issues writes a level that is not negative. A shortage is found by
  the validation only, against the level read there: a salesperson's request with a line
  whose quantity exceeds the level read for its item is rejected with the
  insufficient-stock rejection before any write, and the store is left as it was.
\<close>

theorem C6_stock_writes:
  "(\<exists>ws. journal (snd (create_order u d sch s)) = journal s @ ws \<and> list_all sound_write ws)
   \<and> (role u = ''salesperson'' \<and> l \<in> set (items d) \<and> read_row s (item_id l) = Some row
        \<and> stock_level row - quantity l < 0 \<longrightarrow>
        (\<exists>errs. create_order u d sch s = (Inl (HTTPException 400 (InsufficientStock errs)), s)))"
proof -
  have a: "\<exists>ws. journal (snd (create_order u d sch s)) = journal s @ ws \<and> list_all sound_write ws"
    using create_order_body_sound_writes [of d u sch s]
    by (simp add: create_order_def require_salesperson_def)
  have b: "\<exists>errs. create_order u d sch s = (Inl (HTTPException 400 (InsufficientStock errs)), s)"
    if "role u = ''salesperson''" "l \<in> set (items d)" "read_row s (item_id l) = Some row"
      "stock_level row - quantity l < 0"
  proof -
    have "unsatisfiable s l"
      using that(3,4) by (auto simp: unsatisfiable_def read_row_def split: list.splits)
    then show ?thesis
      using create_order_body_rejects [OF that(2), of s u sch] that(1)
      by (simp add: create_order_def require_salesperson_def)
  qed
  show ?thesis using a b by blast
qed

theorem C6_stock_writes_witness:
  "journal (snd (create_order seller (request [line ''A'' 3, line ''B'' 1]) [] shop))
     = journal shop @ [InsertOrder ''Acme Joinery'' PENDING ''u-sales'',
                       InsertOrderItem 0 ''A'' 3, UpdateStock ''A'' 2,
                       InsertOrderItem 0 ''B'' 1, UpdateStock ''B'' 1]
   \<and> list_all sound_write [InsertOrder ''Acme Joinery'' PENDING ''u-sales'',
                       InsertOrderItem 0 ''A'' 3, UpdateStock ''A'' 2,
                       InsertOrderItem 0 ''B'' 1, UpdateStock ''B'' 1]
   \<and> role seller = ''salesperson''
   \<and> read_row shop ''B'' = Some item_B \<and> stock_level item_B - 3 < 0
   \<and> (\<exists>errs. create_order seller (request [line ''A'' 3, line ''B'' 3]) [] shop
                = (Inl (HTTPException 400 (InsufficientStock errs)), shop))"
proof -
  have j: "journal (snd (create_order seller (request [line ''A'' 3, line ''B'' 1]) [] shop))
     = journal shop @ [InsertOrder ''Acme Joinery'' PENDING ''u-sales'',
                       InsertOrderItem 0 ''A'' 3, UpdateStock ''A'' 2,
                       InsertOrderItem 0 ''B'' 1, UpdateStock ''B'' 1]"
    by (simp add: create_order_example) (simp add: shop_after_def shop_def)
  have h: "role seller = ''salesperson''"
    "line ''B'' 3 \<in> set (items (request [line ''A'' 3, line ''B'' 3]))"
    "read_row shop (item_id (line ''B'' 3)) = Some item_B"
    "stock_level item_B - quantity (line ''B'' 3) < 0"
    by (simp_all add: read_row_def)
  have "\<exists>errs. create_order seller (request [line ''A'' 3, line ''B'' 3]) [] shop
                = (Inl (HTTPException 400 (InsufficientStock errs)), shop)"
    using C6_stock_writes [of seller "request [line ''A'' 3, line ''B'' 3]" "[]" shop
        "line ''B'' 3" item_B] h
    by blast
  then show ?thesis using j h by simp
qed

text \<open>
  C6, as the specification states it, fails: a request names item A (stock 5) twice,
  three units each time. After the first line the stored level is 2 (the store
  \<open>shop_midway\<close>), the second line would drive it to \<open>-1\<close>, and the commit of the
  second line succeeds and writes the stored level to 2 again, as the journal of the
  whole creation shows; nothing is checked at the time of the write.
\<close>

theorem C6_write_time_counterexample:
  "create_order seller (request [line ''A'' 3, line ''A'' 3]) [] shop = (Inr placed_twice, shop_twice)
   \<and> journal shop_twice =
        [InsertOrder ''Acme Joinery'' PENDING ''u-sales'',
         InsertOrderItem 0 ''A'' 3, UpdateStock ''A'' 2,
         InsertOrderItem 0 ''A'' 3, UpdateStock ''A'' 2]
   \<and> stock_of shop ''A'' = Some 5
   \<and> stock_of shop_midway ''A'' = Some 2
   \<and> quantity (line ''A'' 3) = 3
   \<and> commit_items [''A'' \<mapsto> item_A] 0 [line ''A'' 3] [] [hd (resp_items placed_twice)] shop_midway
       = (Inr (resp_items placed_twice), shop_twice)
   \<and> stock_of shop_twice ''A'' = Some 2"
proof (intro conjI)
  show "create_order seller (request [line ''A'' 3, line ''A'' 3]) [] shop
          = (Inr placed_twice, shop_twice)"
    by (rule twice_eval)
  show "journal shop_twice =
        [InsertOrder ''Acme Joinery'' PENDING ''u-sales'',
         InsertOrderItem 0 ''A'' 3, UpdateStock ''A'' 2,
         InsertOrderItem 0 ''A'' 3, UpdateStock ''A'' 2]"
    by (simp add: shop_twice_def)
  show "stock_of shop ''A'' = Some 5"
    by (simp add: stock_of_def read_row_def)
  show "stock_of shop_midway ''A'' = Some 2"
    by (simp add: shop_midway_def stock_of_def read_row_def select_inventory_item_def
        item_A_def item_B_def)
  show "quantity (line ''A'' 3) = 3"
    by simp
  show "commit_items [''A'' \<mapsto> item_A] 0 [line ''A'' 3] [] [hd (resp_items placed_twice)]
          shop_midway = (Inr (resp_items placed_twice), shop_twice)"
    by (rule midway_eval)
  show "stock_of shop_twice ''A'' = Some 2"
    by (simp add: shop_twice_def stock_of_def read_row_def select_inventory_item_def
        item_A_def item_B_def)
qed

text \<open>
  C7. The validation reports no problem exactly when every line, taken alone, asks for
  no more than the stock level of its item in the store: quantities of lines that name
  the same item are not added up, so a salesperson's request whose lines each fit is
  created when every write is applied. In a successful creation the stock update of each
  line writes the level the item had before the request minus the quantity of that line
  alone, so an item named by several lines ends with its former level minus the quantity
  of the last of them. The witness is a request that asks twice for three of an item with
  five in stock: it succeeds and leaves two.
\<close>

theorem C7_duplicate_lines:
  "(fst (validate_stock s ls [] Map.empty) = [] \<longleftrightarrow> (\<forall>l\<in>set ls. \<not> unsatisfiable s l))
   \<and> (role u = ''salesperson'' \<and> (\<forall>l\<in>set (items d). \<not> unsatisfiable s l)
        \<and> list_all (\<lambda>oc. oc = Applied) sch \<longrightarrow>
        (\<exists>r s'. create_order u d sch s = (Inr r, s')))
   \<and> (create_order u d sch s = (Inr r, s') \<longrightarrow>
        journal s' =
          journal s @ InsertOrder (customer_name d) PENDING (user_id u)
            # concat (map (\<lambda>l. [InsertOrderItem (next_id s) (item_id l) (quantity l),
                                 UpdateStock (item_id l)
                                   (the (stock_of s (item_id l)) - quantity l)]) (items d))
        \<and> (\<forall>l\<in>set (items d).
              stock_of s' (item_id l) =
                Some (the (stock_of s (item_id l))
                        - quantity (last (filter (\<lambda>x. item_id x = item_id l) (items d))))))"
proof -
  have b: "\<exists>r s'. create_order u d sch s = (Inr r, s')"
    if "role u = ''salesperson''" "\<forall>l\<in>set (items d). \<not> unsatisfiable s l"
      "list_all (\<lambda>oc. oc = Applied) sch"
    using create_order_applied [OF that] by blast
  have c: "journal s' =
          journal s @ InsertOrder (customer_name d) PENDING (user_id u)
            # concat (map (\<lambda>l. [InsertOrderItem (next_id s) (item_id l) (quantity l),
                                 UpdateStock (item_id l)
                                   (the (stock_of s (item_id l)) - quantity l)]) (items d))
        \<and> (\<forall>l\<in>set (items d).
              stock_of s' (item_id l) =
                Some (the (stock_of s (item_id l))
                        - quantity (last (filter (\<lambda>x. item_id x = item_id l) (items d)))))"
    if run: "create_order u d sch s = (Inr r, s')"
  proof -
    have ok: "\<forall>l\<in>set (items d). \<not> unsatisfiable s l" and s': "s' = committed u d s"
      using create_order_success [OF run] by simp_all
    have "stock_of (committed u d s) (item_id l) =
            Some (the (stock_of s (item_id l))
                    - quantity (last (filter (\<lambda>x. item_id x = item_id l) (items d))))"
      if "l \<in> set (items d)" for l
    proof -
      have "read_row s (item_id l) \<noteq> None" using satisfiable_read ok that by fastforce
      then show ?thesis using stock_of_committed [OF that] by simp
    qed
    then show ?thesis using journal_committed [OF ok, of u] s' by simp
  qed
  show ?thesis using validate_stock_verdict b c by blast
qed

theorem C7_duplicate_lines_witness:
  "\<not> unsatisfiable shop (line ''A'' 3)
   \<and> create_order seller (request [line ''A'' 3, line ''A'' 3]) [] shop
       = (Inr (confirmation seller (request [line ''A'' 3, line ''A'' 3]) shop),
          committed seller (request [line ''A'' 3, line ''A'' 3]) shop)
   \<and> stock_of shop ''A'' = Some 5
   \<and> sum_list (map quantity (items (request [line ''A'' 3, line ''A'' 3]))) = 6
   \<and> stock_of (committed seller (request [line ''A'' 3, line ''A'' 3]) shop) ''A'' = Some 2"
proof -
  let ?d = "request [line ''A'' 3, line ''A'' 3]"
  have h1: "role seller = ''salesperson''" by simp
  have h2: "\<forall>l\<in>set (items ?d). \<not> unsatisfiable shop l"
    by (simp add: unsatisfiable_def)
  have h3: "list_all (\<lambda>oc. oc = Applied) []" by simp
  have run: "create_order seller ?d [] shop = (Inr (confirmation seller ?d shop), committed seller ?d shop)"
    using create_order_applied [OF h1 h2 h3] .
  have s: "stock_of shop ''A'' = Some 5" by (simp add: stock_of_def read_row_def)
  have "stock_of (committed seller ?d shop) ''A'' = Some 2"
    using C7_duplicate_lines [of shop "items ?d" seller ?d "[]"
        "confirmation seller ?d shop" "committed seller ?d shop"] run
    by (simp add: s)
  then show ?thesis using h2 run s by simp
qed

text \<open>
  C8. For a warehouse manager or an admin, a status change of an order identifier that
  no row of the orders table carries answers 404 ``Order not found'', whatever the
  target status and whatever the store would have answered to a write; no write is
  issued and the store is left as it was.
\<close>

theorem C8_transition_unknown_order:
  assumes "role u = ''warehouse_manager'' \<or> role u = ''admin''"
    and "n \<notin> ord_id ` set (orders s)"
  shows "update_order_status u n st oc s = (Inl (HTTPException 404 (Msg ''Order not found'')), s)"
proof -
  have "select_order s n = []"
    using assms(2) by (auto simp: select_order_def filter_empty_conv)
  then show ?thesis
    using assms(1)
    by (auto simp: update_order_status_def require_warehouse_manager_or_admin_def
        update_order_status_body_def)
qed

theorem C8_transition_unknown_order_witness:
  "(role manager = ''warehouse_manager'' \<or> role manager = ''admin'')
   \<and> 7 \<notin> ord_id ` set (orders shop)
   \<and> update_order_status manager 7 FULFILLED Applied shop
       = (Inl (HTTPException 404 (Msg ''Order not found'')), shop)"
proof -
  have h1: "role manager = ''warehouse_manager'' \<or> role manager = ''admin''" by simp
  have h2: "7 \<notin> ord_id ` set (orders shop)" by (simp add: shop_def)
  show ?thesis
    using C8_transition_unknown_order [OF h1 h2, of FULFILLED Applied] h1 h2 by simp
qed

text \<open>
  C9. The claim: for every existing order and every target status the change is accepted
  whatever the current status, the write is applied and the updated order is returned
  with its lines read again. The code does not get that far. The field
  \<^verbatim>\<open>status_update.status\<close> holds a plain string, and \<^verbatim>\<open>new_status.value\<close>
  raises before the update is issued (\<open>update_order_status_body_existing\<close>). For the
  pending order of the first example and a warehouse manager, each of the three target
  statuses is answered with 500, no write is issued and the order stays pending.
\<close>

theorem C9_status_change_fails:
  "select_order shop_after 0
     = [\<lparr>ord_id = 0, ord_customer_name = ''Acme Joinery'', ord_status = PENDING,
         ord_created_by = ''u-sales''\<rparr>]
   \<and> update_order_status manager 0 PROCESSING Applied shop_after
       = (Inl (HTTPException 500 (Msg ''Internal server error during order status update'')),
          shop_after)
   \<and> update_order_status manager 0 FULFILLED Applied shop_after
       = (Inl (HTTPException 500 (Msg ''Internal server error during order status update'')),
          shop_after)
   \<and> update_order_status manager 0 PENDING Applied shop_after
       = (Inl (HTTPException 500 (Msg ''Internal server error during order status update'')),
          shop_after)
   \<and> get_order_details manager 0 shop_after = Inr placed
   \<and> resp_status placed = PENDING"
proof -
  have sel: "select_order shop_after 0
     = [\<lparr>ord_id = 0, ord_customer_name = ''Acme Joinery'', ord_status = PENDING,
         ord_created_by = ''u-sales''\<rparr>]"
    by (simp add: select_order_def shop_after_def)
  have run: "update_order_status manager 0 st Applied shop_after
       = (Inl (HTTPException 500 (Msg ''Internal server error during order status update'')),
          shop_after)" for st
    using update_order_status_body_existing [OF sel, of st Applied]
    by (simp add: update_order_status_def require_warehouse_manager_or_admin_def)
  have read: "get_order_details manager 0 shop_after = Inr placed"
    by (simp add: get_order_details_def require_authenticated_user_def
        get_order_details_body_def order_response_def select_order_def select_order_items_def
        select_inventory_item_def item_A_def item_B_def placed_def shop_after_def)
  show ?thesis using sel run read by (simp add: placed_def)
qed

text \<open>
  C10. Order creation answers 403 to every user whose role is not salesperson, admin
  included, without touching the store, and succeeds only for a salesperson. A status
  change answers 403 to every user who is neither warehouse manager nor admin and
  succeeds only for those two roles. Reading an order does not look at the role: it
  runs the body of the handler for every authenticated user and never answers 403.
\<close>

theorem C10_role_gates:
  "(role u \<noteq> ''salesperson'' \<longrightarrow>
      create_order u d sch s = (Inl (HTTPException 403 (Msg ''Salesperson access required'')), s))
   \<and> (fst (create_order u d sch s) = Inr r \<longrightarrow> role u = ''salesperson'')
   \<and> (role u \<noteq> ''warehouse_manager'' \<and> role u \<noteq> ''admin'' \<longrightarrow>
        update_order_status u n st oc s =
          (Inl (HTTPException 403 (Msg ''Warehouse manager or admin access required'')), s))
   \<and> (fst (update_order_status u n st oc s) = Inr r' \<longrightarrow>
        role u = ''warehouse_manager'' \<or> role u = ''admin'')
   \<and> get_order_details u n s = get_order_details_body n s
   \<and> (\<forall>m. get_order_details u n s \<noteq> Inl (HTTPException 403 m))"
  by (auto simp: create_order_def require_salesperson_def update_order_status_def
      require_warehouse_manager_or_admin_def get_order_details_def require_authenticated_user_def
      get_order_details_body_def internal_error_def
      split: list.splits option.splits)

theorem C10_role_gates_witness:
  "role admin \<noteq> ''salesperson''
   \<and> create_order admin (request [line ''A'' 3]) [] shop
        = (Inl (HTTPException 403 (Msg ''Salesperson access required'')), shop)
   \<and> fst (create_order seller (request [line ''A'' 3, line ''B'' 1]) [] shop) = Inr placed
   \<and> role seller = ''salesperson''
   \<and> role seller \<noteq> ''warehouse_manager'' \<and> role seller \<noteq> ''admin''
   \<and> update_order_status seller 0 PROCESSING Applied shop
        = (Inl (HTTPException 403 (Msg ''Warehouse manager or admin access required'')), shop)
   \<and> get_order_details seller 0 shop = get_order_details_body 0 shop"
proof -
  have h1: "role admin \<noteq> ''salesperson''" by simp
  have h2: "role seller \<noteq> ''warehouse_manager'' \<and> role seller \<noteq> ''admin''" by simp
  have h3: "fst (create_order seller (request [line ''A'' 3, line ''B'' 1]) [] shop) = Inr placed"
    by (simp add: create_order_example)
  show ?thesis
    using C10_role_gates [of admin "request [line ''A'' 3]" "[]" shop placed 0 PROCESSING Applied placed]
      C10_role_gates [of seller "request [line ''A'' 3, line ''B'' 1]" "[]" shop placed 0 PROCESSING
        Applied placed]
      h1 h2 h3
    by simp
qed


end
